theory Spec2Isabelle
  imports Main
begin

section \<open>Data model (types.go)\<close>

text \<open>
  \<^verbatim>\<open>type ConnectionStatus string\<close> with its four constants.
\<close>

datatype ConnectionStatus =
  StatusConnecting | StatusConnected | StatusDisconnected | StatusError

text \<open>
  \<^verbatim>\<open>type FlagChangeEvent struct { FlagKey string; Timestamp string }\<close>
\<close>

record FlagChangeEvent =
  FlagKey :: string
  Timestamp :: string

text \<open>
  A Go function call either returns or panics. A call acts on the state of the program
  outside the SDK (type \<open>'w\<close>: whatever the caller's closures capture); a panic carries
  its value (as \<^verbatim>\<open>%v\<close> prints it) and the state reached when it was raised.
\<close>

datatype ('a, 's) outcome = Returned 'a 's | Panicked string 's

fun state_of :: "('a, 's) outcome \<Rightarrow> 's" where
  "state_of (Returned x s) = s"
| "state_of (Panicked r s) = s"

fun panic_of :: "('a, 's) outcome \<Rightarrow> string option" where
  "panic_of (Returned x s) = None"
| "panic_of (Panicked r s) = Some r"

text \<open>
  \<^verbatim>\<open>type FlagChangeHandler func(event FlagChangeEvent)\<close> and
  \<^verbatim>\<open>type ConnectionStatusHandler func(status ConnectionStatus)\<close>.
  A func value may be nil (\<open>None\<close>); calling a nil func panics with a runtime error.
\<close>

type_synonym 'w FlagChangeHandler = "(FlagChangeEvent \<Rightarrow> 'w \<Rightarrow> (unit, 'w) outcome) option"

type_synonym 'w ConnectionStatusHandler = "(ConnectionStatus \<Rightarrow> 'w \<Rightarrow> (unit, 'w) outcome) option"

definition nil_call :: string where
  "nil_call = ''runtime error: invalid memory address or nil pointer dereference''"

definition call_func :: "('a \<Rightarrow> 'w \<Rightarrow> (unit, 'w) outcome) option \<Rightarrow> 'a \<Rightarrow> 'w \<Rightarrow> (unit, 'w) outcome" where
  "call_func f x w = (case f of None \<Rightarrow> Panicked nil_call w | Some g \<Rightarrow> g x w)"

section \<open>The Go library functions the SDK calls\<close>

text \<open>
  A Go string is a sequence of bytes; \<open>char\<close> is a byte. \<open>byte\<close> reads its value and
  \<open>chr\<close> builds one.
\<close>

definition byte :: "char \<Rightarrow> nat" where
  "byte c = of_char c"

definition chr :: "nat \<Rightarrow> char" where
  "chr n = char_of n"

definition dquote :: char where
  "dquote = CHR 0x22"

definition backslash :: char where
  "backslash = CHR 0x5C"

definition newline :: char where
  "newline = CHR 0x0A"

text \<open>
  A JSON string literal with the given raw content between its quotes.
\<close>

definition quoted :: "string \<Rightarrow> string" where
  "quoted s = dquote # s @ [dquote]"

subsection \<open>strings\<close>

definition HasPrefix :: "string \<Rightarrow> string \<Rightarrow> bool" where
  "HasPrefix s p = (take (length p) s = p)"

definition TrimSuffix :: "string \<Rightarrow> string \<Rightarrow> string" where
  "TrimSuffix s suffix =
     (if length suffix \<le> length s \<and> drop (length s - length suffix) s = suffix
      then take (length s - length suffix) s else s)"

text \<open>
  \<^verbatim>\<open>strings.TrimSpace\<close> removes leading and trailing white space as Unicode defines it
  (\<^verbatim>\<open>unicode.IsSpace\<close>). These are the UTF-8 encodings of the white space code points:
  tab, line feed, vertical tab, form feed, carriage return, space, U+0085, U+00A0, U+1680,
  U+2000 to U+200A, U+2028, U+2029, U+202F, U+205F and U+3000.
\<close>

definition white_space :: "string list" where
  "white_space =
     [[CHR 0x09], [CHR 0x0A], [CHR 0x0B], [CHR 0x0C], [CHR 0x0D], [CHR 0x20],
      [CHR 0xC2, CHR 0x85], [CHR 0xC2, CHR 0xA0], [CHR 0xE1, CHR 0x9A, CHR 0x80],
      [CHR 0xE2, CHR 0x80, CHR 0x80], [CHR 0xE2, CHR 0x80, CHR 0x81],
      [CHR 0xE2, CHR 0x80, CHR 0x82], [CHR 0xE2, CHR 0x80, CHR 0x83],
      [CHR 0xE2, CHR 0x80, CHR 0x84], [CHR 0xE2, CHR 0x80, CHR 0x85],
      [CHR 0xE2, CHR 0x80, CHR 0x86], [CHR 0xE2, CHR 0x80, CHR 0x87],
      [CHR 0xE2, CHR 0x80, CHR 0x88], [CHR 0xE2, CHR 0x80, CHR 0x89],
      [CHR 0xE2, CHR 0x80, CHR 0x8A], [CHR 0xE2, CHR 0x80, CHR 0xA8],
      [CHR 0xE2, CHR 0x80, CHR 0xA9], [CHR 0xE2, CHR 0x80, CHR 0xAF],
      [CHR 0xE2, CHR 0x81, CHR 0x9F], [CHR 0xE3, CHR 0x80, CHR 0x80]]"

text \<open>
  The number of bytes of the white space code point the string starts with, or ends with;
  0 when there is none.
\<close>

definition space_at_head :: "string \<Rightarrow> nat" where
  "space_at_head s =
     (case find (HasPrefix s) white_space of None \<Rightarrow> 0 | Some sp \<Rightarrow> length sp)"

definition space_at_end :: "string \<Rightarrow> nat" where
  "space_at_end s =
     (case find (\<lambda>sp. HasPrefix (rev s) (rev sp)) white_space of
        None \<Rightarrow> 0 | Some sp \<Rightarrow> length sp)"

fun trim_left :: "string \<Rightarrow> string" where
  "trim_left [] = []"
| "trim_left (c # cs) =
     (let n = space_at_head (c # cs)
      in if n = 0 then c # cs else trim_left (drop (n - 1) cs))"

text \<open>
  The same from the end, on the reversed string.
\<close>

fun trim_right_rev :: "string \<Rightarrow> string" where
  "trim_right_rev [] = []"
| "trim_right_rev (c # cs) =
     (let n = space_at_end (rev (c # cs))
      in if n = 0 then c # cs else trim_right_rev (drop (n - 1) cs))"

definition TrimSpace :: "string \<Rightarrow> string" where
  "TrimSpace s = rev (trim_right_rev (rev (trim_left s)))"

subsection \<open>unicode/utf8 and unicode/utf16\<close>

text \<open>
  \<^verbatim>\<open>utf8.AppendRune\<close> for a code point up to U+10FFFF that is no surrogate.
\<close>

definition encode_rune :: "nat \<Rightarrow> string" where
  "encode_rune r =
     (if r < 0x80 then [chr r]
      else if r < 0x800 then [chr (0xC0 + r div 64), chr (0x80 + r mod 64)]
      else if r < 0x10000 then
        [chr (0xE0 + r div 4096), chr (0x80 + r div 64 mod 64), chr (0x80 + r mod 64)]
      else [chr (0xF0 + r div 262144), chr (0x80 + r div 4096 mod 64),
            chr (0x80 + r div 64 mod 64), chr (0x80 + r mod 64)])"

text \<open>
  \<^verbatim>\<open>unicode.ReplacementChar\<close>, U+FFFD, encoded.
\<close>

definition replacement_char :: string where
  "replacement_char = encode_rune 0xFFFD"

definition is_cont :: "char \<Rightarrow> bool" where
  "is_cont c = (0x80 \<le> byte c \<and> byte c \<le> 0xBF)"

text \<open>
  The size \<^verbatim>\<open>utf8.DecodeRune\<close> returns for a well-formed encoding at the head of the
  bytes; 0 stands for its answer \<^verbatim>\<open>(RuneError, 1)\<close> on bytes that are none.
\<close>

definition rune_len :: "string \<Rightarrow> nat" where
  "rune_len s = (case s of
       [] \<Rightarrow> 0
     | a # r1 \<Rightarrow>
        if byte a < 0x80 then 1
        else (case r1 of [] \<Rightarrow> 0 | b # r2 \<Rightarrow>
          if 0xC2 \<le> byte a \<and> byte a \<le> 0xDF then (if is_cont b then 2 else 0)
          else (case r2 of [] \<Rightarrow> 0 | c # r3 \<Rightarrow>
            if 0xE0 \<le> byte a \<and> byte a \<le> 0xEF then
              (if (if byte a = 0xE0 then 0xA0 \<le> byte b \<and> byte b \<le> 0xBF
                   else if byte a = 0xED then 0x80 \<le> byte b \<and> byte b \<le> 0x9F
                   else is_cont b) \<and> is_cont c then 3 else 0)
            else (case r3 of [] \<Rightarrow> 0 | d # r4 \<Rightarrow>
              if 0xF0 \<le> byte a \<and> byte a \<le> 0xF4 then
                (if (if byte a = 0xF0 then 0x90 \<le> byte b \<and> byte b \<le> 0xBF
                     else if byte a = 0xF4 then 0x80 \<le> byte b \<and> byte b \<le> 0x8F
                     else is_cont b) \<and> is_cont c \<and> is_cont d then 4 else 0)
              else 0))))"

definition is_surrogate :: "nat \<Rightarrow> bool" where
  "is_surrogate r = (0xD800 \<le> r \<and> r < 0xE000)"

subsection \<open>encoding/json\<close>

text \<open>
  \<^verbatim>\<open>json.Unmarshal(data, &v)\<close> first checks that the bytes are one well-formed JSON
  document and then stores it into \<open>v\<close>. The model reads the document into a value
  (tokens, then a stack machine over the tokens) and stores the value into a struct of
  string fields, which is all the SSE client decodes into.
\<close>

datatype json =
    JNull | JBool bool | JNumber string | JString string
  | JArray "json list" | JObject "(string \<times> json) list"

datatype token =
    TLBrace | TRBrace | TLBracket | TRBracket | TColon | TComma
  | TString string | TNumber string | TTrue | TFalse | TNull | TBad

definition is_digit :: "char \<Rightarrow> bool" where
  "is_digit c = (byte (CHR ''0'') \<le> byte c \<and> byte c \<le> byte (CHR ''9''))"

definition is_hex :: "char \<Rightarrow> bool" where
  "is_hex c = (is_digit c \<or> (byte (CHR ''a'') \<le> byte c \<and> byte c \<le> byte (CHR ''f''))
                 \<or> (byte (CHR ''A'') \<le> byte c \<and> byte c \<le> byte (CHR ''F'')))"

definition hex_value :: "char \<Rightarrow> nat" where
  "hex_value c = (if is_digit c then byte c - byte (CHR ''0'')
                  else if byte (CHR ''a'') \<le> byte c then byte c - byte (CHR ''a'') + 10
                  else byte c - byte (CHR ''A'') + 10)"

text \<open>
  \<^verbatim>\<open>getu4\<close>: the code unit of an escape that is a backslash, the letter u and four
  hexadecimal digits, at the head of the bytes.
\<close>

definition getu4 :: "string \<Rightarrow> nat option" where
  "getu4 s = (case s of
       b # u # h1 # h2 # h3 # h4 # rest \<Rightarrow>
         if b = backslash \<and> u = CHR ''u'' \<and> is_hex h1 \<and> is_hex h2 \<and> is_hex h3 \<and> is_hex h4
         then Some (((hex_value h1 * 16 + hex_value h2) * 16 + hex_value h3) * 16 + hex_value h4)
         else None
     | _ \<Rightarrow> None)"

text \<open>
  The scanner inside a string literal, after the opening quote: the number of bytes before
  the closing quote; \<open>None\<close> for a control character, a bad escape or no closing quote.
\<close>

fun string_extent :: "string \<Rightarrow> nat option" where
  "string_extent [] = None"
| "string_extent (c # cs) =
     (if c = dquote then Some 0
      else if c = backslash then
        (case cs of
           [] \<Rightarrow> None
         | e # es \<Rightarrow>
             if e \<in> set (dquote # backslash # ''/bfnrt'') then
               map_option (\<lambda>n. n + 2) (string_extent es)
             else if e = CHR ''u'' \<and> 4 \<le> length es \<and> list_all is_hex (take 4 es) then
               map_option (\<lambda>n. n + 6) (string_extent (drop 4 es))
             else None)
      else if byte c < 0x20 then None
      else map_option Suc (string_extent cs))"

definition unescape :: "char \<Rightarrow> char" where
  "unescape e =
     (if e = CHR ''b'' then CHR 0x08 else if e = CHR ''f'' then CHR 0x0C
      else if e = CHR ''n'' then CHR 0x0A else if e = CHR ''r'' then CHR 0x0D
      else if e = CHR ''t'' then CHR 0x09 else e)"

text \<open>
  \<^verbatim>\<open>unquote\<close>, on the bytes between the quotes of a literal the scanner accepted: escapes
  are replaced, a surrogate pair becomes one code point, a lone surrogate and every byte
  that is not well-formed UTF-8 become U+FFFD.
\<close>

fun unquote :: "string \<Rightarrow> string" where
  "unquote [] = []"
| "unquote (c # cs) =
     (if c = backslash then
        (case getu4 (c # cs) of
           Some rr \<Rightarrow>
             (if is_surrogate rr then
                (case getu4 (drop 5 cs) of
                   Some rr1 \<Rightarrow>
                     if 0xD800 \<le> rr \<and> rr < 0xDC00 \<and> 0xDC00 \<le> rr1 \<and> rr1 < 0xE000
                     then encode_rune ((rr - 0xD800) * 1024 + (rr1 - 0xDC00) + 0x10000)
                            @ unquote (drop 11 cs)
                     else replacement_char @ unquote (drop 5 cs)
                 | None \<Rightarrow> replacement_char @ unquote (drop 5 cs))
              else encode_rune rr @ unquote (drop 5 cs))
         | None \<Rightarrow>
             (case cs of [] \<Rightarrow> [] | e # es \<Rightarrow> unescape e # unquote es))
      else if byte c < 0x80 then c # unquote cs
      else (let n = rune_len (c # cs)
            in if n = 0 then replacement_char @ unquote cs
               else c # take (n - 1) cs @ unquote (drop (n - 1) cs)))"

text \<open>
  The scanner on a number: the number of bytes of the literal that starts here, \<open>None\<close>
  when the bytes start no well-formed number (a sign or a point or an exponent mark with
  no digit after it).
\<close>

definition digits_extent :: "string \<Rightarrow> nat" where
  "digits_extent s = length (takeWhile is_digit s)"

definition exponent_extent :: "string \<Rightarrow> nat option" where
  "exponent_extent s =
     (case s of
        [] \<Rightarrow> Some 0
      | e # r1 \<Rightarrow>
          if e = CHR ''e'' \<or> e = CHR ''E'' then
            (let sign = (case r1 of [] \<Rightarrow> 0
                         | g # r2 \<Rightarrow> if g = CHR ''+'' \<or> g = CHR ''-'' then 1 else (0::nat));
                 n = digits_extent (drop sign r1)
             in if n = 0 then None else Some (1 + sign + n))
          else Some 0)"

definition fraction_extent :: "string \<Rightarrow> nat option" where
  "fraction_extent s =
     (case s of
        [] \<Rightarrow> Some 0
      | d # r1 \<Rightarrow>
          if d = CHR ''.'' then
            (let n = digits_extent r1
             in if n = 0 then None
                else map_option (\<lambda>k. 1 + n + k) (exponent_extent (drop n r1)))
          else exponent_extent s)"

definition number_extent :: "string \<Rightarrow> nat option" where
  "number_extent s =
     (let sign = (case s of [] \<Rightarrow> 0 | m # r \<Rightarrow> if m = CHR ''-'' then 1 else (0::nat));
          r1 = drop sign s
      in case r1 of
           [] \<Rightarrow> None
         | d # r2 \<Rightarrow>
             if d = CHR ''0'' then map_option (\<lambda>k. sign + 1 + k) (fraction_extent r2)
             else if is_digit d then
               (let n = digits_extent r1
                in map_option (\<lambda>k. sign + n + k) (fraction_extent (drop n r1)))
             else None)"

definition is_json_space :: "char \<Rightarrow> bool" where
  "is_json_space c = (c = CHR '' '' \<or> c = CHR 0x09 \<or> c = CHR 0x0D \<or> c = CHR 0x0A)"

text \<open>
  The tokens of a document. \<open>TBad\<close> ends the list where no token starts.
\<close>

fun tokens :: "string \<Rightarrow> token list" where
  "tokens [] = []"
| "tokens (c # cs) =
     (if is_json_space c then tokens cs
      else if c = CHR ''{'' then TLBrace # tokens cs
      else if c = CHR ''}'' then TRBrace # tokens cs
      else if c = CHR ''['' then TLBracket # tokens cs
      else if c = CHR '']'' then TRBracket # tokens cs
      else if c = CHR '':'' then TColon # tokens cs
      else if c = CHR '','' then TComma # tokens cs
      else if c = dquote then
        (case string_extent cs of
           None \<Rightarrow> [TBad]
         | Some n \<Rightarrow> TString (unquote (take n cs)) # tokens (drop (Suc n) cs))
      else if c = CHR ''-'' \<or> is_digit c then
        (case number_extent (c # cs) of
           None \<Rightarrow> [TBad]
         | Some n \<Rightarrow> TNumber (take n (c # cs)) # tokens (drop (n - 1) cs))
      else if take 4 (c # cs) = ''true'' then TTrue # tokens (drop 3 cs)
      else if take 5 (c # cs) = ''false'' then TFalse # tokens (drop 4 cs)
      else if take 4 (c # cs) = ''null'' then TNull # tokens (drop 3 cs)
      else [TBad])"

text \<open>
  The stack machine over the tokens. A frame is an array or an object that is still open,
  with what it holds so far; an object waits for a key, or holds a key and waits for its
  value.
\<close>

datatype frame =
    InArray "json list"
  | AwaitKey "(string \<times> json) list"
  | AwaitValue "(string \<times> json) list" string

datatype mode =
    WantValue | WantValueOrClose | WantKeyOrClose | WantKey | WantColon
  | AfterValue | Finished json | Failed

text \<open>
  The scanner of encoding/json refuses a document nested deeper than this.
\<close>

definition maxNestingDepth :: nat where
  "maxNestingDepth = 10000"

text \<open>
  A value is complete: it is the document, or the next element of the open array, or the
  value of the open member.
\<close>

fun value_done :: "json \<Rightarrow> frame list \<Rightarrow> mode \<times> frame list" where
  "value_done v [] = (Finished v, [])"
| "value_done v (InArray xs # st) = (AfterValue, InArray (xs @ [v]) # st)"
| "value_done v (AwaitValue ms k # st) = (AfterValue, AwaitKey (ms @ [(k, v)]) # st)"
| "value_done v (AwaitKey ms # st) = (Failed, AwaitKey ms # st)"

definition open_container :: "frame \<Rightarrow> mode \<Rightarrow> frame list \<Rightarrow> mode \<times> frame list" where
  "open_container f m st =
     (if length st < maxNestingDepth then (m, f # st) else (Failed, st))"

definition begin_value :: "token \<Rightarrow> frame list \<Rightarrow> mode \<times> frame list" where
  "begin_value t st =
     (case t of
        TLBrace \<Rightarrow> open_container (AwaitKey []) WantKeyOrClose st
      | TLBracket \<Rightarrow> open_container (InArray []) WantValueOrClose st
      | TString s \<Rightarrow> value_done (JString s) st
      | TNumber n \<Rightarrow> value_done (JNumber n) st
      | TTrue \<Rightarrow> value_done (JBool True) st
      | TFalse \<Rightarrow> value_done (JBool False) st
      | TNull \<Rightarrow> value_done JNull st
      | _ \<Rightarrow> (Failed, st))"

definition close_array :: "frame list \<Rightarrow> mode \<times> frame list" where
  "close_array st =
     (case st of InArray xs # st' \<Rightarrow> value_done (JArray xs) st' | _ \<Rightarrow> (Failed, st))"

definition close_object :: "frame list \<Rightarrow> mode \<times> frame list" where
  "close_object st =
     (case st of AwaitKey ms # st' \<Rightarrow> value_done (JObject ms) st' | _ \<Rightarrow> (Failed, st))"

definition take_key :: "token \<Rightarrow> frame list \<Rightarrow> mode \<times> frame list" where
  "take_key t st =
     (case (t, st) of
        (TString k, AwaitKey ms # st') \<Rightarrow> (WantColon, AwaitValue ms k # st')
      | _ \<Rightarrow> (Failed, st))"

definition after_value :: "token \<Rightarrow> frame list \<Rightarrow> mode \<times> frame list" where
  "after_value t st =
     (case st of
        InArray xs # st' \<Rightarrow>
          (if t = TComma then (WantValue, st) else if t = TRBracket then close_array st
           else (Failed, st))
      | AwaitKey ms # st' \<Rightarrow>
          (if t = TComma then (WantKey, st) else if t = TRBrace then close_object st
           else (Failed, st))
      | _ \<Rightarrow> (Failed, st))"

definition parse_step :: "token \<Rightarrow> mode \<times> frame list \<Rightarrow> mode \<times> frame list" where
  "parse_step t cfg =
     (case cfg of (m, st) \<Rightarrow>
        (case m of
           WantValue \<Rightarrow> begin_value t st
         | WantValueOrClose \<Rightarrow> if t = TRBracket then close_array st else begin_value t st
         | WantKeyOrClose \<Rightarrow> if t = TRBrace then close_object st else take_key t st
         | WantKey \<Rightarrow> take_key t st
         | WantColon \<Rightarrow> if t = TColon then (WantValue, st) else (Failed, st)
         | AfterValue \<Rightarrow> after_value t st
         | Finished v \<Rightarrow> (Failed, st)
         | Failed \<Rightarrow> (Failed, st)))"

fun parse_tokens :: "token list \<Rightarrow> mode \<times> frame list \<Rightarrow> mode \<times> frame list" where
  "parse_tokens [] cfg = cfg"
| "parse_tokens (t # ts) cfg = parse_tokens ts (parse_step t cfg)"

text \<open>
  The document the bytes hold; \<open>None\<close> where \<^verbatim>\<open>json.Unmarshal\<close> returns a
  \<^verbatim>\<open>*json.SyntaxError\<close>.
\<close>

definition parse_json :: "string \<Rightarrow> json option" where
  "parse_json data =
     (case parse_tokens (tokens data) (WantValue, []) of
        (Finished v, st) \<Rightarrow> Some v
      | _ \<Rightarrow> None)"

text \<open>
  The errors of \<^verbatim>\<open>json.Unmarshal\<close>: a syntax error, or a value of the wrong JSON kind for
  the Go type it is stored into (the kind, and the field; no field at the top level).
\<close>

datatype json_error = SyntaxError | UnmarshalTypeError string string

definition json_kind :: "json \<Rightarrow> string" where
  "json_kind v =
     (case v of JNull \<Rightarrow> ''null'' | JBool b \<Rightarrow> ''bool'' | JNumber n \<Rightarrow> ''number''
      | JString s \<Rightarrow> ''string'' | JArray xs \<Rightarrow> ''array'' | JObject ms \<Rightarrow> ''object'')"

text \<open>
  \<^verbatim>\<open>foldName\<close>: the key of an object matches a field under Unicode simple case folding.
  ASCII letters fold to upper case; the only other code points that fold to an ASCII
  letter are U+212A (Kelvin sign, to K) and U+017F (long s, to S).
\<close>

fun foldName :: "string \<Rightarrow> string" where
  "foldName [] = []"
| "foldName (c # cs) =
     (if byte (CHR ''a'') \<le> byte c \<and> byte c \<le> byte (CHR ''z'')
        then chr (byte c - 32) # foldName cs
      else if take 3 (c # cs) = [CHR 0xE2, CHR 0x84, CHR 0xAA]
        then CHR ''K'' # foldName (drop 2 cs)
      else if take 2 (c # cs) = [CHR 0xC5, CHR 0xBF]
        then CHR ''S'' # foldName (drop 1 cs)
      else c # foldName cs)"

text \<open>
  The field a key is stored into: the field of that very name, else the first field whose
  name folds to the same bytes; a key that matches no field is skipped.
\<close>

definition find_field :: "string list \<Rightarrow> string \<Rightarrow> string option" where
  "find_field names key =
     (if key \<in> set names then Some key
      else find (\<lambda>f. foldName f = foldName key) names)"

text \<open>
  Storing the members of an object into a struct whose fields are all of type string: a
  string is stored, \<^verbatim>\<open>null\<close> leaves the field as it is, any other value is a type error;
  decoding goes on after a type error and the first one is returned at the end. A key
  that occurs twice is stored twice.
\<close>

fun store_members ::
  "string list \<Rightarrow> (string \<times> json) list \<Rightarrow> (string \<Rightarrow> string) \<times> json_error option
     \<Rightarrow> (string \<Rightarrow> string) \<times> json_error option" where
  "store_members names [] acc = acc"
| "store_members names ((key, v) # ms) (vals, err) =
     store_members names ms
       (case find_field names key of
          None \<Rightarrow> (vals, err)
        | Some f \<Rightarrow>
            (case v of
               JString s \<Rightarrow> (vals(f := s), err)
             | JNull \<Rightarrow> (vals, err)
             | _ \<Rightarrow> (vals, (case err of
                                None \<Rightarrow> Some (UnmarshalTypeError (json_kind v) f)
                              | Some e \<Rightarrow> Some e))))"

text \<open>
  \<^verbatim>\<open>json.Unmarshal\<close> into a zero struct with the given JSON field names, all strings. The
  result maps a field name to the field's value. A document that is \<^verbatim>\<open>null\<close> leaves
  the struct as it is and is no error; a document that is neither an object nor
  \<^verbatim>\<open>null\<close> is a type error.
\<close>

definition Unmarshal :: "string list \<Rightarrow> string \<Rightarrow> json_error + (string \<Rightarrow> string)" where
  "Unmarshal names data =
     (case parse_json data of
        None \<Rightarrow> Inl SyntaxError
      | Some v \<Rightarrow>
          (case v of
             JNull \<Rightarrow> Inr (\<lambda>f. [])
           | JObject ms \<Rightarrow>
               (case store_members names ms (\<lambda>f. [], None) of
                  (vals, None) \<Rightarrow> Inr vals
                | (vals, Some e) \<Rightarrow> Inl e)
           | _ \<Rightarrow> Inl (UnmarshalTypeError (json_kind v) [])))"

subsection \<open>net/http\<close>

text \<open>
  \<^verbatim>\<open>textproto.CanonicalMIMEHeaderKey\<close>: a key made of header field bytes only gets an
  upper case first letter and an upper case letter after each hyphen, lower case
  elsewhere; any other key is left as it is.
\<close>

definition validHeaderFieldByte :: "char \<Rightarrow> bool" where
  "validHeaderFieldByte c =
     ((byte (CHR ''a'') \<le> byte c \<and> byte c \<le> byte (CHR ''z''))
      \<or> (byte (CHR ''A'') \<le> byte c \<and> byte c \<le> byte (CHR ''Z''))
      \<or> is_digit c
      \<or> c \<in> set (CHR 0x27 # CHR 0x60 # ''!#$%&*+-.^_|~''))"

fun canonical_case :: "bool \<Rightarrow> string \<Rightarrow> string" where
  "canonical_case upper [] = []"
| "canonical_case upper (c # cs) =
     (let c' = (if upper \<and> byte (CHR ''a'') \<le> byte c \<and> byte c \<le> byte (CHR ''z'')
                  then chr (byte c - 32)
                else if \<not> upper \<and> byte (CHR ''A'') \<le> byte c \<and> byte c \<le> byte (CHR ''Z'')
                  then chr (byte c + 32)
                else c)
      in c' # canonical_case (c' = CHR ''-'') cs)"

definition CanonicalMIMEHeaderKey :: "string \<Rightarrow> string" where
  "CanonicalMIMEHeaderKey s =
     (if list_all validHeaderFieldByte s then canonical_case True s else s)"

text \<open>
  \<^verbatim>\<open>http.Header\<close> is a \<^verbatim>\<open>map[string][]string\<close>; \<^verbatim>\<open>Set\<close> replaces the values under the
  canonical key by the one value, \<^verbatim>\<open>Get\<close> returns the first value under it.
\<close>

type_synonym http_Header = "string \<rightharpoonup> string list"

definition Header_Set :: "string \<Rightarrow> string \<Rightarrow> http_Header \<Rightarrow> http_Header" where
  "Header_Set key v h = h(CanonicalMIMEHeaderKey key \<mapsto> [v])"

definition Header_Get :: "http_Header \<Rightarrow> string \<Rightarrow> string" where
  "Header_Get h key =
     (case h (CanonicalMIMEHeaderKey key) of
        None \<Rightarrow> [] | Some [] \<Rightarrow> [] | Some (v # vs) \<Rightarrow> v)"

text \<open>
  The fields of \<^verbatim>\<open>http.Request\<close> that \<^verbatim>\<open>connect\<close> sets.
\<close>

record Request =
  Method :: string
  URL :: string
  Header :: http_Header

section \<open>Errors and log lines\<close>

text \<open>
  The errors \<^verbatim>\<open>connect\<close> returns: from \<^verbatim>\<open>http.NewRequestWithContext\<close>, from
  \<^verbatim>\<open>httpClient.Do\<close> (a transport failure, or the cancelled context), and its own
  \<^verbatim>\<open>sseError\<close> with the status code of a response that is not 200.
\<close>

datatype conn_error =
    RequestError string | TransportError string | ContextCanceled | sseError int

text \<open>
  The lines the SDK writes with \<^verbatim>\<open>log.Printf\<close> and \<^verbatim>\<open>log.Println\<close>, one constructor
  for each format string of provider.go and of the SSE client, with its arguments.
\<close>

datatype log_line =
    ErrorInListener string
      \<comment> \<open>\<^verbatim>\<open>[Flipswitch] Error in flag change listener: %v\<close>\<close>
  | ProviderStale
      \<comment> \<open>\<^verbatim>\<open>[Flipswitch] SSE connection error, provider is stale\<close>\<close>
  | ConnectionRestored
      \<comment> \<open>\<^verbatim>\<open>[Flipswitch] SSE connection restored\<close>\<close>
  | ConnectionError conn_error
      \<comment> \<open>\<^verbatim>\<open>[Flipswitch] SSE connection error: %v\<close>\<close>
  | ConnectionEstablished
      \<comment> \<open>\<^verbatim>\<open>[Flipswitch] SSE connection established\<close>\<close>
  | ConnectionClosed
      \<comment> \<open>\<^verbatim>\<open>[Flipswitch] SSE connection closed\<close>\<close>
  | SchedulingReconnect int
      \<comment> \<open>\<^verbatim>\<open>[Flipswitch] Scheduling SSE reconnect in %v\<close>\<close>
  | FailedToParse string json_error
      \<comment> \<open>\<^verbatim>\<open>[Flipswitch] Failed to parse <event type> event: %v\<close>\<close>
  | ApiKeyRotatedWarning string
      \<comment> \<open>\<^verbatim>\<open>[Flipswitch] WARNING: API key was rotated. Current key valid until: %s\<close>\<close>

text \<open>
  The state of the running program as the SDK sees it: the caller's state, which only
  callbacks touch, and the log.
\<close>

record 'w process =
  world :: 'w
  logs :: "log_line list"

definition printf :: "log_line \<Rightarrow> ('w, 'z) process_scheme \<Rightarrow> ('w, 'z) process_scheme" where
  "printf l s = s\<lparr>logs := logs s @ [l]\<rparr>"

text \<open>
  The result of a callback, which acts on the caller's state, as a result on the whole
  state.
\<close>

definition in_world ::
  "(unit, 'w) outcome \<Rightarrow> ('w, 'z) process_scheme \<Rightarrow> (unit, ('w, 'z) process_scheme) outcome" where
  "in_world r s =
     (case r of Returned u w \<Rightarrow> Returned () (s\<lparr>world := w\<rparr>)
              | Panicked v w \<Rightarrow> Panicked v (s\<lparr>world := w\<rparr>))"

section \<open>Listener registry (provider.go)\<close>

text \<open>
  The fields of \<^verbatim>\<open>FlipswitchProvider\<close> that the listener functions read or write.
\<close>

record 'w FlipswitchProvider =
  enableRealtime :: bool
  initialized :: bool
  flagChangeListeners :: "'w FlagChangeHandler list"

text \<open>
  \<^verbatim>\<open>AddFlagChangeListener\<close>: append to the slice.
\<close>

definition AddFlagChangeListener ::
  "'w FlagChangeHandler \<Rightarrow> 'w FlipswitchProvider \<Rightarrow> 'w FlipswitchProvider" where
  "AddFlagChangeListener handler p =
     p\<lparr>flagChangeListeners := flagChangeListeners p @ [handler]\<rparr>"

text \<open>
  One iteration of the loop in \<^verbatim>\<open>handleFlagChange\<close>: the anonymous function that calls
  the listener under a deferred \<^verbatim>\<open>recover()\<close>. When the listener panics, the deferred
  function runs, \<^verbatim>\<open>recover()\<close> returns the panic value, the line is logged and the
  anonymous function returns normally.
\<close>

definition call_recovered ::
  "'w FlagChangeHandler \<Rightarrow> FlagChangeEvent \<Rightarrow> ('w, 'z) process_scheme
     \<Rightarrow> (unit, ('w, 'z) process_scheme) outcome" where
  "call_recovered listener event s =
     (case call_func listener event (world s) of
        Returned u w \<Rightarrow> Returned () (s\<lparr>world := w\<rparr>)
      | Panicked r w \<Rightarrow> Returned () (s\<lparr>world := w, logs := logs s @ [ErrorInListener r]\<rparr>))"

text \<open>
  The \<^verbatim>\<open>for _, listener := range listeners\<close> loop. A panic that left the anonymous
  function would end the loop and unwind into the caller.
\<close>

fun range_listeners ::
  "'w FlagChangeHandler list \<Rightarrow> FlagChangeEvent \<Rightarrow> ('w, 'z) process_scheme
     \<Rightarrow> (unit, ('w, 'z) process_scheme) outcome" where
  "range_listeners [] event s = Returned () s"
| "range_listeners (listener # rest) event s =
     (case call_recovered listener event s of
        Returned u s' \<Rightarrow> range_listeners rest event s'
      | Panicked r s' \<Rightarrow> Panicked r s')"

text \<open>
  \<^verbatim>\<open>handleFlagChange\<close>: copy the slice under the read lock, then call every listener of
  the copy.
\<close>

definition handleFlagChange ::
  "'w FlipswitchProvider \<Rightarrow> FlagChangeEvent \<Rightarrow> ('w, 'z) process_scheme
     \<Rightarrow> (unit, ('w, 'z) process_scheme) outcome" where
  "handleFlagChange p event s =
     (let listeners = flagChangeListeners p in range_listeners listeners event s)"

text \<open>
  \<^verbatim>\<open>handleStatusChange\<close> of provider.go: two log lines, nothing else.
\<close>

definition handleStatusChange ::
  "ConnectionStatus \<Rightarrow> ('w, 'z) process_scheme \<Rightarrow> ('w, 'z) process_scheme" where
  "handleStatusChange st s =
     (if st = StatusError then s\<lparr>logs := logs s @ [ProviderStale]\<rparr>
      else if st = StatusConnected then s\<lparr>logs := logs s @ [ConnectionRestored]\<rparr>
      else s)"

text \<open>
  \<^verbatim>\<open>RemoveFlagChangeListener\<close> compares \<^verbatim>\<open>&h == &handler\<close>: the address of the loop
  variable with the address of the parameter. It compares no func values (Go has no
  equality on them). Two Go pointers are equal when they point to the same variable, so
  the model names the variables of one activation: the parameter, and the loop variable of
  iteration \<open>i\<close>.
\<close>

datatype variable = Var_handler | Var_h nat

definition pointer_eq :: "variable \<Rightarrow> variable \<Rightarrow> bool" where
  "pointer_eq x y = (x = y)"

text \<open>
  The loop \<^verbatim>\<open>for i, h := range p.flagChangeListeners\<close>, over the elements from index
  \<open>i\<close> on; \<open>all\<close> is the whole slice, and
  \<^verbatim>\<open>append(s[:i], s[i+1:]...)\<close> is the slice without element \<open>i\<close>.
\<close>

fun remove_range ::
  "nat \<Rightarrow> 'w FlagChangeHandler list \<Rightarrow> 'w FlagChangeHandler list \<Rightarrow> 'w FlagChangeHandler list" where
  "remove_range i all [] = all"
| "remove_range i all (h # rest) =
     (if pointer_eq (Var_h i) Var_handler then take i all @ drop (i + 1) all
      else remove_range (i + 1) all rest)"

definition RemoveFlagChangeListener ::
  "'w FlagChangeHandler \<Rightarrow> 'w FlipswitchProvider \<Rightarrow> 'w FlipswitchProvider" where
  "RemoveFlagChangeListener handler p =
     p\<lparr>flagChangeListeners := remove_range 0 (flagChangeListeners p) (flagChangeListeners p)\<rparr>"

text \<open>
  What a dispatch must amount to when every listener runs: the listeners' effects on the
  caller's state, one after the other in registration order, each from the state the
  previous one left (also when it panicked), and the panic values in the same order.
\<close>

fun all_effects :: "'w FlagChangeHandler list \<Rightarrow> FlagChangeEvent \<Rightarrow> 'w \<Rightarrow> 'w" where
  "all_effects [] event w = w"
| "all_effects (l # ls) event w = all_effects ls event (state_of (call_func l event w))"

fun all_panics :: "'w FlagChangeHandler list \<Rightarrow> FlagChangeEvent \<Rightarrow> 'w \<Rightarrow> string list" where
  "all_panics [] event w = []"
| "all_panics (l # ls) event w =
     (case panic_of (call_func l event w) of None \<Rightarrow> [] | Some r \<Rightarrow> [r])
       @ all_panics ls event (state_of (call_func l event w))"

text \<open>
  The listeners of the test \<^verbatim>\<open>TestHandleFlagChange_ListenerPanic\<close>: one that panics and
  one that appends the event to a slice.
\<close>

definition panicking_listener :: "(FlagChangeEvent list) FlagChangeHandler" where
  "panicking_listener = Some (\<lambda>event w. Panicked ''listener error'' w)"

definition recording_listener :: "(FlagChangeEvent list) FlagChangeHandler" where
  "recording_listener = Some (\<lambda>event w. Returned () (w @ [event]))"

definition test_event :: FlagChangeEvent where
  "test_event = \<lparr>FlagKey = ''test'', Timestamp = ''2024-01-01T00:00:00Z''\<rparr>"

section \<open>Polling fallback controller\<close>

text \<open>
  Modelled from the spec: the configuration of the polling fallback (the options
  \<^verbatim>\<open>WithMaxSseRetries\<close> and \<^verbatim>\<open>WithPollingFallback\<close> that provider_test.go passes). The
  provider.go of this development has no such fields; spec section 4.2 names a failure
  threshold and an enable flag (the polling interval plays no part in activation).
\<close>

record PollingConfig =
  threshold :: int
  enabled :: bool

text \<open>
  Modelled from the spec: \<open>PollingState\<close> of spec section 3, \<open>{active, consecutiveFailures}\<close>,
  with two counters of the periodic tasks started so far and running now, so that
  "exactly one periodic task may run at a time" can be stated.
\<close>

record PollingState =
  active :: bool
  consecutiveFailures :: int
  tasksStarted :: nat
  tasksRunning :: nat

text \<open>
  Modelled from the spec: the controller as constructed, inactive with no failure counted.
\<close>

definition initial_polling :: PollingState where
  "initial_polling =
     \<lparr>active = False, consecutiveFailures = 0, tasksStarted = 0, tasksRunning = 0\<rparr>"

text \<open>
  Modelled from the spec: \<^verbatim>\<open>startPollingFallback\<close>, absent from provider.go. Spec 4.2:
  "start a periodic task"; "Starting when already active is a no-op (exactly one periodic
  task may run at a time)."
\<close>

definition startPollingFallback :: "PollingState \<Rightarrow> PollingState" where
  "startPollingFallback s =
     (if active s then s
      else s\<lparr>active := True, tasksStarted := tasksStarted s + 1,
              tasksRunning := tasksRunning s + 1\<rparr>)"

text \<open>
  Modelled from the spec: \<^verbatim>\<open>stopPolling\<close>, absent from provider.go. Spec 4.2: "stop the
  periodic task"; "Stopping when not active is a no-op and must not error."
\<close>

definition stopPolling :: "PollingState \<Rightarrow> PollingState" where
  "stopPolling s =
     (if active s then s\<lparr>active := False, tasksRunning := tasksRunning s - 1\<rparr> else s)"

text \<open>
  Modelled from the spec: \<^verbatim>\<open>IsPollingActive\<close>, absent from provider.go. Spec 4.2:
  "exposes \<open>IsActive() bool\<close>".
\<close>

definition IsPollingActive :: "PollingState \<Rightarrow> bool" where
  "IsPollingActive s = active s"

text \<open>
  Modelled from the spec: the \<^verbatim>\<open>handleStatusChange\<close> that drives the fallback, absent from
  provider.go (whose \<^verbatim>\<open>handleStatusChange\<close> only logs). Spec 4.2: "Each \<open>Error\<close> status
  increments the counter; any status other than \<open>Error\<close> does not increment it, but only
  \<open>Connected\<close> resets it to zero. When the counter reaches the threshold and fallback is
  enabled and polling is not already active, start a periodic task [...] When \<open>Connected\<close>
  is observed while active, stop the periodic task".
\<close>

definition onStatus :: "PollingConfig \<Rightarrow> ConnectionStatus \<Rightarrow> PollingState \<Rightarrow> PollingState" where
  "onStatus cfg st s =
     (if st = StatusError then
        (let s1 = s\<lparr>consecutiveFailures := consecutiveFailures s + 1\<rparr>
         in if threshold cfg \<le> consecutiveFailures s1 \<and> enabled cfg \<and> \<not> active s1
            then startPollingFallback s1 else s1)
      else if st = StatusConnected then
        (let s1 = s\<lparr>consecutiveFailures := 0\<rparr>
         in if active s1 then stopPolling s1 else s1)
      else s)"

text \<open>
  Modelled from the spec: the controller "consumes the ordered stream of
  \<open>ConnectionStatus\<close> values" (spec 4.2), one after the other.
\<close>

fun observe :: "PollingConfig \<Rightarrow> ConnectionStatus list \<Rightarrow> PollingState \<Rightarrow> PollingState" where
  "observe cfg [] s = s"
| "observe cfg (st # rest) s = observe cfg rest (onStatus cfg st s)"

text \<open>
  Modelled from the spec: the configuration of the claim, \<^verbatim>\<open>WithMaxSseRetries(3)\<close>.
\<close>

definition max_retries_3 :: "bool \<Rightarrow> PollingConfig" where
  "max_retries_3 e = \<lparr>threshold = 3, enabled = e\<rparr>"

text \<open>
  The number of \<open>Error\<close> statuses in a history since its last \<open>Connected\<close> (in all of it
  when there is none).
\<close>

definition errors_since_connected :: "ConnectionStatus list \<Rightarrow> int" where
  "errors_since_connected ss =
     int (length (filter (\<lambda>st. st = StatusError)
                    (takeWhile (\<lambda>st. st \<noteq> StatusConnected) (rev ss))))"

section \<open>SSE client\<close>

text \<open>
  \<^verbatim>\<open>minRetryDelay = 1 * time.Second\<close> and \<^verbatim>\<open>maxRetryDelay = 30 * time.Second\<close>. A
  \<^verbatim>\<open>time.Duration\<close> is an \<^verbatim>\<open>int64\<close> count of nanoseconds; \<open>wrap64\<close> is the value
  an \<^verbatim>\<open>int64\<close> operation leaves when the exact result is out of range.
\<close>

definition second :: int where
  "second = 1000000000"

definition minRetryDelay :: int where
  "minRetryDelay = 1 * second"

definition maxRetryDelay :: int where
  "maxRetryDelay = 30 * second"

definition wrap64 :: "int \<Rightarrow> int" where
  "wrap64 x = (x + 2 ^ 63) mod 2 ^ 64 - 2 ^ 63"

text \<open>
  The points of \<^verbatim>\<open>connectLoop\<close>, with \<^verbatim>\<open>connect\<close> and \<^verbatim>\<open>scheduleReconnect\<close> that it
  calls, between which another goroutine can run: the code holds the mutex only to read
  or write a field, and blocks in \<^verbatim>\<open>httpClient.Do\<close>, in \<^verbatim>\<open>reader.ReadString\<close> and in
  the \<^verbatim>\<open>select\<close> of the backoff wait. A goroutine is at one of these points, or has
  returned, or has died of a panic.
\<close>

datatype control =
    AtLoopTop
      \<comment> \<open>connectLoop: about to read \<^verbatim>\<open>c.closed\<close> at the top of the loop\<close>
  | AtConnect
      \<comment> \<open>connect: about to call \<^verbatim>\<open>updateStatus(StatusConnecting)\<close>\<close>
  | AtRequest
      \<comment> \<open>connect: about to build the request and call \<^verbatim>\<open>httpClient.Do\<close>\<close>
  | AtAfterError conn_error
      \<comment> \<open>connectLoop: connect returned this error; about to read \<^verbatim>\<open>c.closed\<close>\<close>
  | AtErrorStatus
      \<comment> \<open>connectLoop: about to call \<^verbatim>\<open>updateStatus(StatusError)\<close>\<close>
  | AtSchedule
      \<comment> \<open>scheduleReconnect: about to read \<^verbatim>\<open>c.closed\<close> and \<^verbatim>\<open>c.retryDelay\<close>\<close>
  | AtWait int
      \<comment> \<open>scheduleReconnect: in the \<^verbatim>\<open>select\<close>, waiting for the delay it read\<close>
  | AtDouble
      \<comment> \<open>scheduleReconnect: the timer fired; about to double \<^verbatim>\<open>c.retryDelay\<close>\<close>
  | AtConnected
      \<comment> \<open>connect: status 200; about to log and call \<^verbatim>\<open>updateStatus(StatusConnected)\<close>\<close>
  | AtResetDelay
      \<comment> \<open>connect: about to set \<^verbatim>\<open>c.retryDelay = minRetryDelay\<close>\<close>
  | AtRead string string
      \<comment> \<open>connect: top of the read loop with \<^verbatim>\<open>eventType\<close> and \<^verbatim>\<open>eventData\<close>; about to
          poll \<^verbatim>\<open>c.ctx.Done()\<close>\<close>
  | AtReadString string string
      \<comment> \<open>connect: in \<^verbatim>\<open>reader.ReadString\<close>\<close>
  | AtReadError
      \<comment> \<open>connect: the read failed; about to read \<^verbatim>\<open>c.closed\<close>\<close>
  | AtDisconnected
      \<comment> \<open>connect: about to call \<^verbatim>\<open>updateStatus(StatusDisconnected)\<close>\<close>
  | Exited
      \<comment> \<open>connectLoop has returned\<close>
  | Crashed string
      \<comment> \<open>a callback panicked in the goroutine, which recovers nothing\<close>

text \<open>
  \<^verbatim>\<open>SseClient\<close> in its process. The configuration: \<open>baseURL\<close>, \<open>apiKey\<close>,
  \<open>telemetryHeaders\<close> (a Go map; the list holds its entries in the order
  \<^verbatim>\<open>range\<close> visits them, which Go leaves open, and its keys are distinct), and the two
  callbacks. The fields under the mutex: \<open>status\<close>, \<open>retryDelay\<close>, \<open>closed\<close>.
  \<open>ctxDone\<close> says that \<^verbatim>\<open>c.cancel()\<close> has been called. What the client has done:
  the \<^verbatim>\<open>connectLoop\<close> goroutines that \<^verbatim>\<open>Connect\<close> has started, each with the point it is
  at; the requests \<^verbatim>\<open>httpClient.Do\<close> has sent; the delays the backoff wait has slept in
  full; and the first panic nothing recovered.
\<close>

record 'w SseClient = "'w process" +
  baseURL :: string
  apiKey :: string
  telemetryHeaders :: "(string \<times> string) list"
  onFlagChange :: "'w FlagChangeHandler"
  onStatusChange :: "'w ConnectionStatusHandler"
  status :: ConnectionStatus
  retryDelay :: int
  closed :: bool
  ctxDone :: bool
  goroutines :: "control list"
  requests :: "Request list"
  sleeps :: "int list"
  fault :: "string option"

text \<open>
  \<^verbatim>\<open>NewSseClient\<close>, in a process with the given state and log.
\<close>

definition NewSseClient ::
  "string \<Rightarrow> string \<Rightarrow> (string \<times> string) list \<Rightarrow> 'w FlagChangeHandler
     \<Rightarrow> 'w ConnectionStatusHandler \<Rightarrow> 'w process \<Rightarrow> 'w SseClient" where
  "NewSseClient base key headers flagHandler statusHandler p =
     \<lparr>world = world p, logs = logs p,
      baseURL = TrimSuffix base ''/'', apiKey = key, telemetryHeaders = headers,
      onFlagChange = flagHandler, onStatusChange = statusHandler,
      status = StatusDisconnected, retryDelay = minRetryDelay, closed = False,
      ctxDone = False, goroutines = [], requests = [], sleeps = [], fault = None\<rparr>"

text \<open>
  \<^verbatim>\<open>updateStatus\<close>: store the status, then call \<^verbatim>\<open>onStatusChange\<close> unless it is nil.
\<close>

definition updateStatus ::
  "ConnectionStatus \<Rightarrow> 'w SseClient \<Rightarrow> (unit, 'w SseClient) outcome" where
  "updateStatus st c =
     (let c1 = c\<lparr>status := st\<rparr>
      in case onStatusChange c1 of
           None \<Rightarrow> Returned () c1
         | Some f \<Rightarrow> in_world (f st (world c1)) c1)"

definition GetStatus :: "'w SseClient \<Rightarrow> ConnectionStatus" where
  "GetStatus c = status c"

text \<open>
  \<^verbatim>\<open>Connect\<close>: return if closed, else \<^verbatim>\<open>go c.connectLoop()\<close>.
\<close>

definition Connect :: "'w SseClient \<Rightarrow> 'w SseClient" where
  "Connect c = (if closed c then c else c\<lparr>goroutines := goroutines c @ [AtLoopTop]\<rparr>)"

text \<open>
  \<^verbatim>\<open>Close\<close>, run without another goroutine in between: set \<open>closed\<close>, cancel the
  context, \<^verbatim>\<open>updateStatus(StatusDisconnected)\<close>.
\<close>

definition Close :: "'w SseClient \<Rightarrow> (unit, 'w SseClient) outcome" where
  "Close c =
     (let c1 = c\<lparr>closed := True\<rparr>;
          c2 = c1\<lparr>ctxDone := True\<rparr>
      in updateStatus StatusDisconnected c2)"

text \<open>
  The request \<^verbatim>\<open>connect\<close> builds: the three headers of the client, then the telemetry
  headers, each with \<^verbatim>\<open>req.Header.Set\<close>.
\<close>

fun range_headers :: "(string \<times> string) list \<Rightarrow> http_Header \<Rightarrow> http_Header" where
  "range_headers [] h = h"
| "range_headers ((key, v) # rest) h = range_headers rest (Header_Set key v h)"

definition new_request :: "'w SseClient \<Rightarrow> Request" where
  "new_request c =
     (let target = baseURL c @ ''/api/v1/flags/events'';
          h0 = Map.empty;
          h1 = Header_Set ''X-API-Key'' (apiKey c) h0;
          h2 = Header_Set ''Accept'' ''text/event-stream'' h1;
          h3 = Header_Set ''Cache-Control'' ''no-cache'' h2
      in \<lparr>Method = ''GET'', URL = target, Header = range_headers (telemetryHeaders c) h3\<rparr>)"

text \<open>
  Modelled from the spec: the struct \<^verbatim>\<open>FlagUpdatedEvent\<close> that \<^verbatim>\<open>handleEvent\<close> decodes
  into is declared in no file of this development. Spec section 6 gives the payload of
  \<open>flag-updated\<close> as \<open>flagKey: string, timestamp: string\<close>; the struct is modelled by the
  JSON names of its fields.
\<close>

definition FlagUpdatedEvent :: "string list" where
  "FlagUpdatedEvent = [''flagKey'', ''timestamp'']"

text \<open>
  Modelled from the spec: the struct \<^verbatim>\<open>ConfigUpdatedEvent\<close>, declared in no file of this
  development. Spec section 6 gives the payload of \<open>config-updated\<close> as
  \<open>timestamp: string\<close>.
\<close>

definition ConfigUpdatedEvent :: "string list" where
  "ConfigUpdatedEvent = [''timestamp'']"

text \<open>
  Modelled from the spec: the struct \<^verbatim>\<open>ApiKeyRotatedEvent\<close>, declared in no file of this
  development. Spec section 6 gives the payload of \<open>api-key-rotated\<close> as
  \<open>validUntil: string, timestamp: string\<close>.
\<close>

definition ApiKeyRotatedEvent :: "string list" where
  "ApiKeyRotatedEvent = [''validUntil'', ''timestamp'']"

text \<open>
  \<^verbatim>\<open>handleEvent\<close>.
\<close>

definition handleEvent ::
  "string \<Rightarrow> string \<Rightarrow> 'w SseClient \<Rightarrow> (unit, 'w SseClient) outcome" where
  "handleEvent eventType data c =
     (if eventType = ''heartbeat'' then Returned () c
      else if eventType = ''flag-updated'' then
        (case Unmarshal FlagUpdatedEvent data of
           Inl err \<Rightarrow> Returned () (printf (FailedToParse ''flag-updated'' err) c)
         | Inr parsed \<Rightarrow>
             (let event = \<lparr>FlagKey = parsed ''flagKey'', Timestamp = parsed ''timestamp''\<rparr>
              in case onFlagChange c of
                   None \<Rightarrow> Returned () c
                 | Some f \<Rightarrow> in_world (f event (world c)) c))
      else if eventType = ''config-updated'' then
        (case Unmarshal ConfigUpdatedEvent data of
           Inl err \<Rightarrow> Returned () (printf (FailedToParse ''config-updated'' err) c)
         | Inr parsed \<Rightarrow>
             (let event = \<lparr>FlagKey = [], Timestamp = parsed ''timestamp''\<rparr>
              in case onFlagChange c of
                   None \<Rightarrow> Returned () c
                 | Some f \<Rightarrow> in_world (f event (world c)) c))
      else if eventType = ''api-key-rotated'' then
        (case Unmarshal ApiKeyRotatedEvent data of
           Inl err \<Rightarrow> Returned () (printf (FailedToParse ''api-key-rotated'' err) c)
         | Inr parsed \<Rightarrow>
             Returned () (printf (ApiKeyRotatedWarning (parsed ''validUntil'')) c))
      else Returned () c)"

text \<open>
  The end of \<^verbatim>\<open>scheduleReconnect\<close>, after the timer has fired: double the delay unless it
  has reached the maximum, and cap it.
\<close>

definition double_delay :: "'w SseClient \<Rightarrow> 'w SseClient" where
  "double_delay c =
     (if retryDelay c < maxRetryDelay then
        (let c1 = c\<lparr>retryDelay := wrap64 (retryDelay c * 2)\<rparr>
         in if retryDelay c1 > maxRetryDelay then c1\<lparr>retryDelay := maxRetryDelay\<rparr> else c1)
      else c)"

text \<open>
  What reaches a goroutine from outside at the point it is at: nothing (it runs on by
  itself); \<^verbatim>\<open>http.NewRequestWithContext\<close> fails; \<^verbatim>\<open>httpClient.Do\<close> fails or returns a
  response with a status code; \<^verbatim>\<open>ReadString\<close> returns a line or fails (the stream
  ended); the timer of the backoff wait fires, or the wait sees \<^verbatim>\<open>c.ctx.Done()\<close>.
\<close>

datatype input =
    Internal | NewRequestFails string | DoFails string | Responds int
  | Line string | StreamEnds | TimerFires | Cancelled

text \<open>
  After a call in the goroutine: go on at the next point, or die of the panic.
\<close>

definition proceed ::
  "control \<Rightarrow> (unit, 'w SseClient) outcome \<Rightarrow> (control \<times> 'w SseClient) option" where
  "proceed next r =
     (case r of Returned u c \<Rightarrow> Some (next, c)
              | Panicked v c \<Rightarrow> Some (Crashed v, c\<lparr>fault := Some v\<rparr>))"

text \<open>
  The body of the read loop of \<^verbatim>\<open>connect\<close> for one line that \<^verbatim>\<open>ReadString\<close> returned.
\<close>

definition read_line ::
  "string \<Rightarrow> string \<Rightarrow> string \<Rightarrow> 'w SseClient \<Rightarrow> (control \<times> 'w SseClient) option" where
  "read_line raw eventType eventData c =
     (let line = TrimSpace raw
      in if HasPrefix line ''event:'' then Some (AtRead (TrimSpace (drop 6 line)) eventData, c)
         else if HasPrefix line ''data:'' then Some (AtRead eventType (TrimSpace (drop 5 line)), c)
         else if line = [] \<and> eventData \<noteq> [] then
           proceed (AtRead [] []) (handleEvent eventType eventData c)
         else Some (AtRead eventType eventData, c))"

text \<open>
  One step of a goroutine from the point it is at; \<open>None\<close> when the input is not what
  the goroutine waits for there. \<^verbatim>\<open>httpClient.Do\<close> on a cancelled context returns the
  context's error and sends nothing.
\<close>

fun goroutine_step ::
  "control \<Rightarrow> input \<Rightarrow> 'w SseClient \<Rightarrow> (control \<times> 'w SseClient) option" where
  "goroutine_step AtLoopTop i c =
     (if i = Internal then (if closed c then Some (Exited, c) else Some (AtConnect, c))
      else None)"
| "goroutine_step AtConnect i c =
     (if i = Internal then proceed AtRequest (updateStatus StatusConnecting c) else None)"
| "goroutine_step AtRequest i c =
     (case i of
        NewRequestFails msg \<Rightarrow> Some (AtAfterError (RequestError msg), c)
      | DoFails msg \<Rightarrow>
          (if ctxDone c then Some (AtAfterError ContextCanceled, c)
           else Some (AtAfterError (TransportError msg),
                      c\<lparr>requests := requests c @ [new_request c]\<rparr>))
      | Responds code \<Rightarrow>
          (if ctxDone c then Some (AtAfterError ContextCanceled, c)
           else (let c1 = c\<lparr>requests := requests c @ [new_request c]\<rparr>
                 in if code \<noteq> 200 then Some (AtAfterError (sseError code), c1)
                    else Some (AtConnected, c1)))
      | _ \<Rightarrow> None)"
| "goroutine_step (AtAfterError err) i c =
     (if i = Internal then
        (if closed c then Some (AtLoopTop, c)
         else Some (AtErrorStatus, printf (ConnectionError err) c))
      else None)"
| "goroutine_step AtErrorStatus i c =
     (if i = Internal then proceed AtSchedule (updateStatus StatusError c) else None)"
| "goroutine_step AtSchedule i c =
     (if i = Internal then
        (if closed c then Some (AtLoopTop, c)
         else Some (AtWait (retryDelay c), printf (SchedulingReconnect (retryDelay c)) c))
      else None)"
| "goroutine_step (AtWait delay) i c =
     (if i = TimerFires then Some (AtDouble, c\<lparr>sleeps := sleeps c @ [delay]\<rparr>)
      else if i = Cancelled \<and> ctxDone c then Some (AtLoopTop, c)
      else None)"
| "goroutine_step AtDouble i c =
     (if i = Internal then Some (AtLoopTop, double_delay c) else None)"
| "goroutine_step AtConnected i c =
     (if i = Internal then
        proceed AtResetDelay (updateStatus StatusConnected (printf ConnectionEstablished c))
      else None)"
| "goroutine_step AtResetDelay i c =
     (if i = Internal then Some (AtRead [] [], c\<lparr>retryDelay := minRetryDelay\<rparr>) else None)"
| "goroutine_step (AtRead eventType eventData) i c =
     (if i = Internal then
        (if ctxDone c then Some (AtLoopTop, c) else Some (AtReadString eventType eventData, c))
      else None)"
| "goroutine_step (AtReadString eventType eventData) i c =
     (case i of
        Line raw \<Rightarrow> read_line raw eventType eventData c
      | StreamEnds \<Rightarrow> Some (AtReadError, c)
      | _ \<Rightarrow> None)"
| "goroutine_step AtReadError i c =
     (if i = Internal then
        (if closed c then Some (AtLoopTop, c)
         else Some (AtDisconnected, printf ConnectionClosed c))
      else None)"
| "goroutine_step AtDisconnected i c =
     (if i = Internal then proceed AtSchedule (updateStatus StatusDisconnected c) else None)"
| "goroutine_step Exited i c = None"
| "goroutine_step (Crashed v) i c = None"

text \<open>
  What can happen next in the process: the caller calls \<^verbatim>\<open>Connect\<close>; the caller, inside
  \<^verbatim>\<open>Close\<close>, runs one of its three statements (\<^verbatim>\<open>c.closed = true\<close> under the mutex,
  \<^verbatim>\<open>c.cancel()\<close>, \<^verbatim>\<open>c.updateStatus(StatusDisconnected)\<close>); or goroutine \<open>n\<close> takes a
  step with an input. Nothing happens after a panic that nothing recovered.
\<close>

datatype action = CallConnect | CloseLatch | CloseCancel | CloseStatus | Run nat input

definition step :: "action \<Rightarrow> 'w SseClient \<Rightarrow> 'w SseClient option" where
  "step a c =
     (if fault c \<noteq> None then None
      else case a of
        CallConnect \<Rightarrow> Some (Connect c)
      | CloseLatch \<Rightarrow> Some (c\<lparr>closed := True\<rparr>)
      | CloseCancel \<Rightarrow> Some (c\<lparr>ctxDone := True\<rparr>)
      | CloseStatus \<Rightarrow>
          (case updateStatus StatusDisconnected c of
             Returned u c' \<Rightarrow> Some c'
           | Panicked v c' \<Rightarrow> Some (c'\<lparr>fault := Some v\<rparr>))
      | Run n i \<Rightarrow>
          (if n < length (goroutines c) then
             (case goroutine_step (goroutines c ! n) i c of
                None \<Rightarrow> None
              | Some (k, c') \<Rightarrow> Some (c'\<lparr>goroutines := (goroutines c')[n := k]\<rparr>))
           else None))"

text \<open>
  A schedule: the actions in the order they happen. \<open>None\<close> when one of them cannot
  happen where it stands.
\<close>

fun exec :: "action list \<Rightarrow> 'w SseClient \<Rightarrow> 'w SseClient option" where
  "exec [] c = Some c"
| "exec (a # as) c = (case step a c of None \<Rightarrow> None | Some c' \<Rightarrow> exec as c')"

text \<open>
  The three statements of one call of \<^verbatim>\<open>Close\<close>.
\<close>

definition call_Close :: "action list" where
  "call_Close = [CloseLatch, CloseCancel, CloseStatus]"

text \<open>
  A goroutine that has neither returned nor died.
\<close>

fun running :: "control \<Rightarrow> bool" where
  "running Exited = False"
| "running (Crashed v) = False"
| "running k = True"

definition background_tasks :: "'w SseClient \<Rightarrow> nat" where
  "background_tasks c = length (filter running (goroutines c))"

section \<open>Schedules and test clients\<close>

text \<open>
  A callback that never panics; a nil callback is never called.
\<close>

definition never_panics :: "('a \<Rightarrow> 'w \<Rightarrow> (unit, 'w) outcome) option \<Rightarrow> bool" where
  "never_panics h = (case h of None \<Rightarrow> True | Some f \<Rightarrow> \<forall>x w. panic_of (f x w) = None)"

text \<open>
  The callback of \<^verbatim>\<open>TestSseClient_StatusChangeCallback\<close>, which passes every status on
  to the test, and a client made as the tests make it, with that callback.
\<close>

definition status_recorder :: "(ConnectionStatus list) ConnectionStatusHandler" where
  "status_recorder = Some (\<lambda>st seen. Returned () (seen @ [st]))"

definition test_client :: "(ConnectionStatus list) SseClient" where
  "test_client =
     NewSseClient ''http://localhost'' ''test-key'' [] None status_recorder
       \<lparr>world = [], logs = []\<rparr>"

text \<open>
  \<^verbatim>\<open>Connect()\<close>, then \<^verbatim>\<open>Close()\<close> while the goroutine is between the check of
  \<^verbatim>\<open>c.closed\<close> at the top of \<^verbatim>\<open>connectLoop\<close> and the first statement of
  \<^verbatim>\<open>connect\<close>; the goroutine then runs until it returns.
\<close>

definition close_race :: "action list" where
  "close_race =
     [CallConnect, Run 0 Internal] @ call_Close @
     [Run 0 Internal, Run 0 (DoFails ''context canceled''), Run 0 Internal, Run 0 Internal]"

text \<open>
  The inputs at \<^verbatim>\<open>httpClient.Do\<close> that make \<^verbatim>\<open>connect\<close> return an error: the request
  cannot be built, the transport fails, or the response has a status other than 200.
\<close>

fun failure :: "input \<Rightarrow> bool" where
  "failure (NewRequestFails msg) = True"
| "failure (DoFails msg) = True"
| "failure (Responds code) = (code \<noteq> 200)"
| "failure i = False"

text \<open>
  One turn of \<^verbatim>\<open>connectLoop\<close> in goroutine \<open>n\<close> whose connection attempt fails with
  \<open>f\<close>: the check of \<open>closed\<close>, \<^verbatim>\<open>updateStatus(StatusConnecting)\<close>, the request
  that fails, the second check of \<open>closed\<close>, \<^verbatim>\<open>updateStatus(StatusError)\<close>, and
  \<^verbatim>\<open>scheduleReconnect\<close>: read the delay, wait until the timer fires, double.
\<close>

definition attempt_fails :: "nat \<Rightarrow> input \<Rightarrow> action list" where
  "attempt_fails n f =
     [Run n Internal, Run n Internal, Run n f, Run n Internal, Run n Internal,
      Run n Internal, Run n TimerFires, Run n Internal]"

text \<open>
  One turn of \<^verbatim>\<open>connectLoop\<close> in goroutine \<open>n\<close> up to the read loop: the check of
  \<open>closed\<close>, \<^verbatim>\<open>updateStatus(StatusConnecting)\<close>, a response with status 200,
  \<^verbatim>\<open>updateStatus(StatusConnected)\<close>, and the reset of the delay.
\<close>

definition attempt_connects :: "nat \<Rightarrow> action list" where
  "attempt_connects n =
     [Run n Internal, Run n Internal, Run n (Responds 200), Run n Internal, Run n Internal]"

text \<open>
  The stream ends under goroutine \<open>n\<close> in the read loop: the poll of the context, the
  read that fails, the check of \<open>closed\<close>, \<^verbatim>\<open>updateStatus(StatusDisconnected)\<close>, and
  \<^verbatim>\<open>scheduleReconnect\<close>: read the delay, wait until the timer fires, double.
\<close>

definition stream_ends :: "nat \<Rightarrow> action list" where
  "stream_ends n =
     [Run n Internal, Run n StreamEnds, Run n Internal, Run n Internal,
      Run n Internal, Run n TimerFires, Run n Internal]"

text \<open>
  The wait the spec gives for failure number \<open>k\<close> (from 0) since the start or since the
  last \<open>Connected\<close>: 1, 2, 4, 8, 16, 30, 30, ... seconds.
\<close>

definition backoff :: "nat \<Rightarrow> int" where
  "backoff k = min (2 ^ k * minRetryDelay) maxRetryDelay"

text \<open>
  Goroutine \<open>n\<close> is at control point \<open>k\<close> in a process in which nothing has panicked.
\<close>

definition at :: "nat \<Rightarrow> control \<Rightarrow> 'w SseClient \<Rightarrow> bool" where
  "at n k c = (n < length (goroutines c) \<and> goroutines c ! n = k \<and> fault c = None)"

text \<open>
  Goroutine \<open>n\<close> is at the top of \<^verbatim>\<open>connectLoop\<close> in a client that is not closed and
  whose status callback never panics.
\<close>

definition at_loop_top :: "nat \<Rightarrow> 'w SseClient \<Rightarrow> bool" where
  "at_loop_top n c =
     (at n AtLoopTop c \<and> \<not> closed c \<and> \<not> ctxDone c \<and> never_panics (onStatusChange c))"

text \<open>
  The fields of the client that decide how \<^verbatim>\<open>connectLoop\<close> goes on and how long it
  waits, with the waits it has slept.
\<close>

definition core ::
  "'w SseClient \<Rightarrow> ConnectionStatus \<times> int \<times> bool \<times> bool \<times> int list \<times> string option
     \<times> 'w ConnectionStatusHandler \<times> nat" where
  "core c =
     (status c, retryDelay c, closed c, ctxDone c, sleeps c, fault c, onStatusChange c,
      length (goroutines c))"

text \<open>
  The client that \<^verbatim>\<open>updateStatus\<close> leaves.
\<close>

definition status_updated :: "ConnectionStatus \<Rightarrow> 'w SseClient \<Rightarrow> 'w SseClient" where
  "status_updated st c = state_of (updateStatus st c)"

text \<open>
  A client whose caller passes a telemetry header named like one of the client's own.
\<close>

definition telemetry_client :: "(ConnectionStatus list) SseClient" where
  "telemetry_client =
     NewSseClient ''http://localhost'' ''test-key''
       [(''accept'', ''application/json''), (''X-Flipswitch-SDK'', ''go/0.1.0'')]
       None status_recorder \<lparr>world = [], logs = []\<rparr>"

text \<open>
  The payloads of the spec: \<^verbatim>\<open>{"flagKey":K,"timestamp":T}\<close> and \<^verbatim>\<open>{"timestamp":T}\<close>, for
  strings \<open>K\<close> and \<open>T\<close> that a JSON string literal holds as they are: printable ASCII
  with no quote and no backslash.
\<close>

definition plain :: "char \<Rightarrow> bool" where
  "plain c = (0x20 \<le> byte c \<and> byte c < 0x80 \<and> c \<noteq> dquote \<and> c \<noteq> backslash)"

definition flag_updated_payload :: "string \<Rightarrow> string \<Rightarrow> string" where
  "flag_updated_payload K T =
     ''{'' @ quoted ''flagKey'' @ '':'' @ quoted K @ '','' @ quoted ''timestamp'' @ '':''
       @ quoted T @ ''}''"

definition config_updated_payload :: "string \<Rightarrow> string" where
  "config_updated_payload T = ''{'' @ quoted ''timestamp'' @ '':'' @ quoted T @ ''}''"

text \<open>
  The two lines of a frame as \<^verbatim>\<open>sseFrame\<close> of the tests writes them,
  \<^verbatim>\<open>"event: %s\ndata: %s\n\n"\<close>; the empty line that ends the frame follows.
\<close>

definition event_line :: "string \<Rightarrow> string" where
  "event_line eventType = ''event: '' @ eventType @ [newline]"

definition data_line :: "string \<Rightarrow> string" where
  "data_line data = ''data: '' @ data @ [newline]"

text \<open>
  Goroutine \<open>n\<close> reads the three lines of a frame.
\<close>

definition reads_frame :: "nat \<Rightarrow> string \<Rightarrow> string \<Rightarrow> action list" where
  "reads_frame n eventType data =
     [Run n Internal, Run n (Line (event_line eventType)),
      Run n Internal, Run n (Line (data_line data)),
      Run n Internal, Run n (Line [newline])]"

text \<open>
  A client as \<^verbatim>\<open>TestSseClient_HandleEvent_FlagUpdated\<close> makes it, whose
  \<^verbatim>\<open>onFlagChange\<close> passes every event on to the test, with a goroutine in the read loop.
\<close>

definition listening_client :: "(FlagChangeEvent list) SseClient" where
  "listening_client =
     (NewSseClient ''http://localhost'' ''test-key'' [] recording_listener None
        \<lparr>world = [], logs = []\<rparr>)\<lparr>goroutines := [AtRead [] []]\<rparr>"

text \<open>
  A byte that neither begins nor ends the encoding of a white space code point.
\<close>

definition solid :: "char \<Rightarrow> bool" where
  "solid c = (c \<notin> set (map hd white_space) \<and> c \<notin> set (map last white_space))"

text \<open>
  Goroutine \<open>n\<close> goes to control point \<open>k\<close>.
\<close>

definition move :: "nat \<Rightarrow> control \<Rightarrow> 'w SseClient \<Rightarrow> 'w SseClient" where
  "move n k c = c\<lparr>goroutines := (goroutines c)[n := k]\<rparr>"

text \<open>
  An event is delivered: \<^verbatim>\<open>onFlagChange\<close>, unless it is nil, is called with it.
\<close>

definition deliver :: "FlagChangeEvent \<Rightarrow> 'w SseClient \<Rightarrow> (unit, 'w SseClient) outcome" where
  "deliver event c =
     (case onFlagChange c of
        None \<Rightarrow> Returned () c
      | Some f \<Rightarrow> in_world (f event (world c)) c)"

text \<open>
  The process after goroutine \<open>n\<close> has handled a frame with the given outcome: back at
  the top of the read loop with \<^verbatim>\<open>eventType\<close> and \<^verbatim>\<open>eventData\<close> cleared, or dead of
  the panic of the callback.
\<close>

definition frame_handled ::
  "nat \<Rightarrow> (unit, 'w SseClient) outcome \<Rightarrow> 'w SseClient" where
  "frame_handled n r =
     (case r of
        Returned u c \<Rightarrow> move n (AtRead [] []) c
      | Panicked v c \<Rightarrow> move n (Crashed v) (c\<lparr>fault := Some v\<rparr>))"

section \<open>Properties of the listener registry\<close>

lemma range_listeners_runs_all:
  "range_listeners ls event s =
     Returned () (s\<lparr>world := all_effects ls event (world s),
                    logs := logs s @ map ErrorInListener (all_panics ls event (world s))\<rparr>)"
proof (induction ls arbitrary: s)
  case Nil
  show ?case by simp
next
  case (Cons l ls)
  show ?case
  proof (cases "call_func l event (world s)")
    case (Returned u w)
    then show ?thesis by (simp add: call_recovered_def Cons.IH)
  next
    case (Panicked r w)
    then show ?thesis by (simp add: call_recovered_def Cons.IH)
  qed
qed

lemma remove_range_keeps: "remove_range i all rest = all"
  by (induction rest arbitrary: i) (simp_all add: pointer_eq_def)

text \<open>
  C8. A dispatch of one event returns normally whatever the listeners do; every listener
  of the list has been called with the event, in order, a panicking one included and the
  ones after it too; each panic has left one log line.
\<close>

theorem handleFlagChange_isolates_panics:
  "handleFlagChange p event s =
     Returned () (s\<lparr>world := all_effects (flagChangeListeners p) event (world s),
                    logs := logs s @ map ErrorInListener
                              (all_panics (flagChangeListeners p) event (world s))\<rparr>)"
  by (simp add: handleFlagChange_def Let_def range_listeners_runs_all)

text \<open>
  C4. Removing a listener by passing a callback leaves the provider as it was, and a
  later dispatch reaches the same listeners.
\<close>

theorem RemoveFlagChangeListener_noop:
  "RemoveFlagChangeListener handler p = p \<and>
   handleFlagChange (RemoveFlagChangeListener handler p) event s = handleFlagChange p event s"
  by (simp add: RemoveFlagChangeListener_def remove_range_keeps)

section \<open>Properties of the polling fallback controller\<close>

lemma observe_append: "observe cfg (xs @ ys) s = observe cfg ys (observe cfg xs s)"
  by (induction xs arbitrary: s) simp_all

lemma errors_since_connected_snoc:
  "errors_since_connected (ss @ [st]) =
     (if st = StatusConnected then 0
      else if st = StatusError then errors_since_connected ss + 1
      else errors_since_connected ss)"
  by (simp add: errors_since_connected_def)

lemma polling_invariant:
  "consecutiveFailures (observe (max_retries_3 e) ss initial_polling) = errors_since_connected ss \<and>
   (active (observe (max_retries_3 e) ss initial_polling) \<longleftrightarrow> e \<and> 3 \<le> errors_since_connected ss) \<and>
   tasksRunning (observe (max_retries_3 e) ss initial_polling)
     = (if active (observe (max_retries_3 e) ss initial_polling) then 1 else 0)"
proof (induction ss rule: rev_induct)
  case Nil
  show ?case by (simp add: initial_polling_def errors_since_connected_def)
next
  case (snoc st ss)
  then show ?case
    by (cases st)
       (auto simp: observe_append errors_since_connected_snoc onStatus_def
                   startPollingFallback_def stopPolling_def max_retries_3_def Let_def)
qed

lemma three_errors_after_connected:
  assumes "s0 = observe (max_retries_3 True) (ss @ [StatusConnected]) initial_polling"
  shows "\<not> active s0 \<and> consecutiveFailures s0 = 0 \<and>
     \<not> active (observe (max_retries_3 True) [StatusError, StatusError] s0) \<and>
     active (observe (max_retries_3 True) [StatusError, StatusError, StatusError] s0) \<and>
     tasksStarted (observe (max_retries_3 True) [StatusError, StatusError, StatusError] s0)
       = tasksStarted s0 + 1 \<and>
     active (observe (max_retries_3 True)
               [StatusError, StatusError, StatusError, StatusError] s0) \<and>
     tasksStarted (observe (max_retries_3 True)
                     [StatusError, StatusError, StatusError, StatusError] s0)
       = tasksStarted s0 + 1"
proof -
  have "consecutiveFailures s0 = 0" and "\<not> active s0"
    using polling_invariant [of True "ss @ [StatusConnected]"]
    by (simp_all add: assms errors_since_connected_snoc)
  then show ?thesis
    by (simp add: onStatus_def startPollingFallback_def max_retries_3_def Let_def)
qed

text \<open>
  C1. With threshold 3 and the fallback enabled, polling is inactive after two \<open>Error\<close>
  statuses and active after the third, with one task started; a fourth \<open>Error\<close> starts
  no second task; the same holds after any history that ends with \<open>Connected\<close>. A
  \<open>Connected\<close> status after any history leaves polling inactive and the counter at 0. In
  every reachable state (with the fallback enabled or not) polling is active exactly when
  the fallback is enabled and the counter is at least 3, the counter is the number of
  \<open>Error\<close> statuses since the last \<open>Connected\<close>, and one task runs exactly when polling is
  active.
\<close>

theorem polling_activates_once_and_resets:
  "\<not> IsPollingActive (observe (max_retries_3 True) [StatusError, StatusError] initial_polling) \<and>
   IsPollingActive (observe (max_retries_3 True)
      [StatusError, StatusError, StatusError] initial_polling) \<and>
   tasksStarted (observe (max_retries_3 True)
      [StatusError, StatusError, StatusError] initial_polling) = 1 \<and>
   IsPollingActive (observe (max_retries_3 True)
      [StatusError, StatusError, StatusError, StatusError] initial_polling) \<and>
   tasksStarted (observe (max_retries_3 True)
      [StatusError, StatusError, StatusError, StatusError] initial_polling) = 1 \<and>
   IsPollingActive (observe (max_retries_3 True)
      (ss @ [StatusConnected, StatusError, StatusError, StatusError]) initial_polling) \<and>
   tasksStarted (observe (max_retries_3 True)
      (ss @ [StatusConnected, StatusError, StatusError, StatusError, StatusError]) initial_polling)
     = tasksStarted (observe (max_retries_3 True) (ss @ [StatusConnected]) initial_polling) + 1 \<and>
   \<not> IsPollingActive (observe (max_retries_3 e) (ss @ [StatusConnected]) initial_polling) \<and>
   consecutiveFailures (observe (max_retries_3 e) (ss @ [StatusConnected]) initial_polling) = 0 \<and>
   (IsPollingActive (observe (max_retries_3 e) ss initial_polling) \<longleftrightarrow>
      e \<and> 3 \<le> consecutiveFailures (observe (max_retries_3 e) ss initial_polling)) \<and>
   consecutiveFailures (observe (max_retries_3 e) ss initial_polling)
     = errors_since_connected ss \<and>
   tasksRunning (observe (max_retries_3 e) ss initial_polling)
     = (if IsPollingActive (observe (max_retries_3 e) ss initial_polling) then 1 else 0)"
proof -
  define s0 where "s0 = observe (max_retries_3 True) (ss @ [StatusConnected]) initial_polling"
  note after = three_errors_after_connected [OF s0_def]
  have split3: "ss @ [StatusConnected, StatusError, StatusError, StatusError]
      = (ss @ [StatusConnected]) @ [StatusError, StatusError, StatusError]"
    and split4: "ss @ [StatusConnected, StatusError, StatusError, StatusError, StatusError]
      = (ss @ [StatusConnected]) @ [StatusError, StatusError, StatusError, StatusError]"
    by simp_all
  have from_start:
    "\<not> active (observe (max_retries_3 True) [StatusError, StatusError] initial_polling)"
    "observe (max_retries_3 True) [StatusError, StatusError, StatusError] initial_polling
       = \<lparr>active = True, consecutiveFailures = 3, tasksStarted = 1, tasksRunning = 1\<rparr>"
    "observe (max_retries_3 True)
       [StatusError, StatusError, StatusError, StatusError] initial_polling
       = \<lparr>active = True, consecutiveFailures = 4, tasksStarted = 1, tasksRunning = 1\<rparr>"
    by (simp_all add: onStatus_def startPollingFallback_def max_retries_3_def Let_def
                      initial_polling_def)
  have outage: "active (observe (max_retries_3 True)
        (ss @ [StatusConnected, StatusError, StatusError, StatusError]) initial_polling)"
    "tasksStarted (observe (max_retries_3 True)
        (ss @ [StatusConnected, StatusError, StatusError, StatusError, StatusError])
        initial_polling) = tasksStarted s0 + 1"
    unfolding split3 split4 observe_append [of _ "ss @ [StatusConnected]"]
    using after by (simp_all add: s0_def)
  have connected:
    "\<not> active (observe (max_retries_3 e) (ss @ [StatusConnected]) initial_polling)"
    "consecutiveFailures (observe (max_retries_3 e) (ss @ [StatusConnected]) initial_polling) = 0"
    using polling_invariant [of e "ss @ [StatusConnected]"]
    by (simp_all add: errors_since_connected_snoc)
  show ?thesis
    using from_start outage connected polling_invariant [of e ss]
    by (simp add: IsPollingActive_def s0_def)
qed

section \<open>Properties of Connect and Close\<close>

lemmas run_simps = step_def Connect_def updateStatus_def in_world_def proceed_def printf_def
  Let_def call_Close_def

lemma closed_after_Close: "closed (state_of (Close c))"
  by (simp add: Close_def updateStatus_def in_world_def Let_def
           split: option.split outcome.split)

lemma background_tasks_Connect:
  "background_tasks (Connect c) = (if closed c then background_tasks c else background_tasks c + 1)"
  by (simp add: Connect_def background_tasks_def)

lemma Connect_pow_fields:
  "\<not> closed c \<Longrightarrow> \<not> closed ((Connect ^^ n) c) \<and>
     background_tasks ((Connect ^^ n) c) = background_tasks c + n"
  by (induction n) (simp_all add: background_tasks_Connect, simp add: Connect_def)

text \<open>
  C2, as the claim states it, fails: a second \<^verbatim>\<open>Connect()\<close> on a client that is not
  closed changes the client and leaves two background tasks.
\<close>

theorem Connect_twice_counterexample:
  "Connect (Connect test_client) \<noteq> Connect test_client \<and>
   background_tasks (Connect test_client) = 1 \<and>
   background_tasks (Connect (Connect test_client)) = 2"
proof -
  have "goroutines (Connect (Connect test_client)) \<noteq> goroutines (Connect test_client)"
    by (simp add: Connect_def test_client_def NewSseClient_def)
  then have "Connect (Connect test_client) \<noteq> Connect test_client"
    by metis
  moreover have "background_tasks (Connect test_client) = 1"
    and "background_tasks (Connect (Connect test_client)) = 2"
    by (simp_all add: Connect_def test_client_def NewSseClient_def background_tasks_def)
  ultimately show ?thesis
    by simp
qed

text \<open>
  C2, amended. \<^verbatim>\<open>Connect()\<close> after \<^verbatim>\<open>Close()\<close> changes nothing and starts no task. On a
  client that is not closed every call of \<^verbatim>\<open>Connect()\<close> starts one more background task
  (the client keeps no record of a task that runs): \<open>n\<close> calls on a new client leave
  \<open>n\<close> tasks.
\<close>

theorem Connect_noop_after_Close_else_one_more_task:
  "Connect (state_of (Close c)) = state_of (Close c) \<and>
   background_tasks (Connect c)
     = (if closed c then background_tasks c else background_tasks c + 1) \<and>
   background_tasks ((Connect ^^ n) (NewSseClient base key hs fh sh p)) = n"
proof -
  have "Connect (state_of (Close c)) = state_of (Close c)"
    using closed_after_Close [of c] by (simp add: Connect_def)
  moreover have "background_tasks ((Connect ^^ n) (NewSseClient base key hs fh sh p)) = n"
    using Connect_pow_fields [of "NewSseClient base key hs fh sh p" n]
    by (simp add: NewSseClient_def background_tasks_def)
  ultimately show ?thesis
    by (simp add: background_tasks_Connect)
qed

text \<open>
  C5, at the schedule \<open>close_race\<close>: every action of the schedule can happen; at its end
  \<^verbatim>\<open>Close()\<close> has returned and the goroutine has returned, yet \<^verbatim>\<open>GetStatus()\<close> is
  \<open>connecting\<close>, and the status callback has seen \<open>connecting\<close> after the
  \<open>disconnected\<close> of \<^verbatim>\<open>Close()\<close>.
\<close>

theorem Close_then_Connecting_reported:
  "map_option (\<lambda>c. (closed c, ctxDone c, goroutines c, GetStatus c, world c, fault c))
     (exec close_race test_client)
   = Some (True, True, [Exited], StatusConnecting,
           [StatusDisconnected, StatusConnecting], None)"
  by (simp add: close_race_def test_client_def NewSseClient_def status_recorder_def
                run_simps GetStatus_def)

section \<open>Properties of the reconnect loop\<close>

lemma backoff_bounds: "0 < backoff k \<and> backoff k \<le> maxRetryDelay"
  by (simp add: backoff_def minRetryDelay_def maxRetryDelay_def second_def)

lemma wrap64_id: "- (2 ^ 63) \<le> x \<Longrightarrow> x < 2 ^ 63 \<Longrightarrow> wrap64 x = x"
  by (simp add: wrap64_def)

lemma double_backoff:
  assumes "retryDelay c = backoff k"
  shows "retryDelay (double_delay c) = backoff (Suc k)"
proof (cases "backoff k < maxRetryDelay")
  case True
  then have eq: "backoff k = 2 ^ k * minRetryDelay"
    by (simp add: backoff_def min_def split: if_splits)
  have "0 < backoff k" using backoff_bounds by blast
  with True have "wrap64 (backoff k * 2) = backoff k * 2"
    by (intro wrap64_id) (simp_all add: maxRetryDelay_def second_def)
  with True eq assms show ?thesis
    by (simp add: double_delay_def Let_def backoff_def min_def)
next
  case False
  with backoff_bounds [of k] have eq: "backoff k = maxRetryDelay" by simp
  then have "maxRetryDelay \<le> 2 ^ k * minRetryDelay"
    by (simp add: backoff_def min_def split: if_splits)
  then have "backoff (Suc k) = maxRetryDelay"
    by (simp add: backoff_def min_def minRetryDelay_def maxRetryDelay_def second_def)
  with False eq assms show ?thesis
    by (simp add: double_delay_def)
qed

lemma updateStatus_quiet:
  assumes "never_panics (onStatusChange c)"
  shows "updateStatus st c = Returned () (status_updated st c)"
proof (cases "onStatusChange c")
  case None
  then show ?thesis by (simp add: updateStatus_def status_updated_def)
next
  case (Some f)
  with assms have "panic_of (f st (world c)) = None"
    by (simp add: never_panics_def)
  then show ?thesis
    using Some
    by (cases "f st (world c)") (simp_all add: updateStatus_def in_world_def status_updated_def)
qed

lemma status_updated_frame:
  "status_updated st c = c\<lparr>status := st, world := world (status_updated st c)\<rparr>"
  by (simp add: status_updated_def updateStatus_def in_world_def Let_def
           split: option.split outcome.split)

lemma status_updated_fields [simp]:
  "status (status_updated st c) = st"
  "retryDelay (status_updated st c) = retryDelay c"
  "closed (status_updated st c) = closed c"
  "ctxDone (status_updated st c) = ctxDone c"
  "goroutines (status_updated st c) = goroutines c"
  "requests (status_updated st c) = requests c"
  "sleeps (status_updated st c) = sleeps c"
  "fault (status_updated st c) = fault c"
  "onStatusChange (status_updated st c) = onStatusChange c"
  "onFlagChange (status_updated st c) = onFlagChange c"
  "telemetryHeaders (status_updated st c) = telemetryHeaders c"
  "baseURL (status_updated st c) = baseURL c"
  "apiKey (status_updated st c) = apiKey c"
  "logs (status_updated st c) = logs c"
  by (subst status_updated_frame, simp)+

lemma step_Run:
  assumes "at n k c" and "goroutine_step k i c = Some (k', c')"
  shows "step (Run n i) c = Some (c'\<lparr>goroutines := (goroutines c')[n := k']\<rparr>)"
  using assms by (simp add: step_def at_def)

lemma go_LoopTop:
  assumes "at n AtLoopTop c" "\<not> closed c"
  shows "\<exists>c'. step (Run n Internal) c = Some c' \<and> at n AtConnect c' \<and> core c' = core c"
  using assms step_Run [OF assms(1), of Internal AtConnect c]
  by (simp add: at_def core_def)

lemma go_Connect:
  assumes "at n AtConnect c" "never_panics (onStatusChange c)"
  shows "\<exists>c'. step (Run n Internal) c = Some c' \<and> at n AtRequest c' \<and>
           core c' = core (c\<lparr>status := StatusConnecting\<rparr>)"
  using assms step_Run [OF assms(1), of Internal AtRequest "status_updated StatusConnecting c"]
  by (simp add: at_def core_def proceed_def updateStatus_quiet)

lemma go_Request_fails:
  assumes "at n AtRequest c" "failure f"
  shows "\<exists>c' e. step (Run n f) c = Some c' \<and> at n (AtAfterError e) c' \<and> core c' = core c"
proof (cases f)
  case (NewRequestFails msg)
  then show ?thesis
    using assms step_Run [OF assms(1), of f "AtAfterError (RequestError msg)" c]
    by (auto simp: at_def core_def)
next
  case (DoFails msg)
  show ?thesis
  proof (cases "ctxDone c")
    case True
    then show ?thesis
      using DoFails assms step_Run [OF assms(1), of f "AtAfterError ContextCanceled" c]
      by (auto simp: at_def core_def)
  next
    case False
    then show ?thesis
      using DoFails assms
        step_Run [OF assms(1), of f "AtAfterError (TransportError msg)"
                    "c\<lparr>requests := requests c @ [new_request c]\<rparr>"]
      by (auto simp: at_def core_def)
  qed
next
  case (Responds code)
  show ?thesis
  proof (cases "ctxDone c")
    case True
    then show ?thesis
      using Responds assms step_Run [OF assms(1), of f "AtAfterError ContextCanceled" c]
      by (auto simp: at_def core_def)
  next
    case False
    then show ?thesis
      using Responds assms
        step_Run [OF assms(1), of f "AtAfterError (sseError code)"
                    "c\<lparr>requests := requests c @ [new_request c]\<rparr>"]
      by (auto simp: at_def core_def Let_def)
  qed
qed (use assms in simp_all)

lemma go_AfterError:
  assumes "at n (AtAfterError e) c" "\<not> closed c"
  shows "\<exists>c'. step (Run n Internal) c = Some c' \<and> at n AtErrorStatus c' \<and> core c' = core c"
  using assms step_Run [OF assms(1), of Internal AtErrorStatus "printf (ConnectionError e) c"]
  by (simp add: at_def core_def printf_def)

lemma go_ErrorStatus:
  assumes "at n AtErrorStatus c" "never_panics (onStatusChange c)"
  shows "\<exists>c'. step (Run n Internal) c = Some c' \<and> at n AtSchedule c' \<and>
           core c' = core (c\<lparr>status := StatusError\<rparr>)"
  using assms step_Run [OF assms(1), of Internal AtSchedule "status_updated StatusError c"]
  by (simp add: at_def core_def proceed_def updateStatus_quiet)

lemma go_Schedule:
  assumes "at n AtSchedule c" "\<not> closed c"
  shows "\<exists>c'. step (Run n Internal) c = Some c' \<and> at n (AtWait (retryDelay c)) c' \<and>
           core c' = core c"
  using assms
    step_Run [OF assms(1), of Internal "AtWait (retryDelay c)"
                "printf (SchedulingReconnect (retryDelay c)) c"]
  by (simp add: at_def core_def printf_def)

lemma go_Wait:
  assumes "at n (AtWait d) c"
  shows "\<exists>c'. step (Run n TimerFires) c = Some c' \<and> at n AtDouble c' \<and>
           core c' = core (c\<lparr>sleeps := sleeps c @ [d]\<rparr>)"
  using assms step_Run [OF assms(1), of TimerFires AtDouble "c\<lparr>sleeps := sleeps c @ [d]\<rparr>"]
  by (simp add: at_def core_def)

lemma double_delay_fields [simp]:
  "status (double_delay c) = status c"
  "closed (double_delay c) = closed c"
  "ctxDone (double_delay c) = ctxDone c"
  "goroutines (double_delay c) = goroutines c"
  "sleeps (double_delay c) = sleeps c"
  "fault (double_delay c) = fault c"
  "onStatusChange (double_delay c) = onStatusChange c"
  by (simp_all add: double_delay_def Let_def)

lemma go_Double:
  assumes "at n AtDouble c"
  shows "\<exists>c'. step (Run n Internal) c = Some c' \<and> at n AtLoopTop c' \<and>
           core c' = core (c\<lparr>retryDelay := retryDelay (double_delay c)\<rparr>)"
  using assms step_Run [OF assms(1), of Internal AtLoopTop "double_delay c"]
  by (simp add: at_def core_def)

lemma exec_Cons: "step a c = Some c' \<Longrightarrow> exec (a # as) c = exec as c'"
  by simp

lemma attempt_fails_run:
  assumes "at_loop_top n c" "failure f"
  shows "\<exists>c'. exec (attempt_fails n f) c = Some c' \<and> at_loop_top n c' \<and>
           core c' = core (c\<lparr>status := StatusError, sleeps := sleeps c @ [retryDelay c],
                              retryDelay := retryDelay (double_delay c)\<rparr>)"
proof -
  from assms(1) have a0: "at n AtLoopTop c" and op: "\<not> closed c" "\<not> ctxDone c"
    and q: "never_panics (onStatusChange c)"
    by (simp_all add: at_loop_top_def)
  from go_LoopTop [OF a0 op(1)] obtain c1
    where s1: "step (Run n Internal) c = Some c1" and a1: "at n AtConnect c1"
      and k1: "core c1 = core c" by blast
  from k1 q have q1: "never_panics (onStatusChange c1)" by (simp add: core_def)
  from go_Connect [OF a1 q1] obtain c2
    where s2: "step (Run n Internal) c1 = Some c2" and a2: "at n AtRequest c2"
      and k2: "core c2 = core (c1\<lparr>status := StatusConnecting\<rparr>)" by blast
  from go_Request_fails [OF a2 assms(2)] obtain c3 e
    where s3: "step (Run n f) c2 = Some c3" and a3: "at n (AtAfterError e) c3"
      and k3: "core c3 = core c2" by blast
  from k1 k2 k3 op have op3: "\<not> closed c3" by (simp add: core_def)
  from go_AfterError [OF a3 op3] obtain c4
    where s4: "step (Run n Internal) c3 = Some c4" and a4: "at n AtErrorStatus c4"
      and k4: "core c4 = core c3" by blast
  from k1 k2 k3 k4 q have q4: "never_panics (onStatusChange c4)" by (simp add: core_def)
  from go_ErrorStatus [OF a4 q4] obtain c5
    where s5: "step (Run n Internal) c4 = Some c5" and a5: "at n AtSchedule c5"
      and k5: "core c5 = core (c4\<lparr>status := StatusError\<rparr>)" by blast
  from k1 k2 k3 k4 k5 op have op5: "\<not> closed c5" by (simp add: core_def)
  from go_Schedule [OF a5 op5] obtain c6
    where s6: "step (Run n Internal) c5 = Some c6" and a6: "at n (AtWait (retryDelay c5)) c6"
      and k6: "core c6 = core c5" by blast
  from go_Wait [OF a6] obtain c7
    where s7: "step (Run n TimerFires) c6 = Some c7" and a7: "at n AtDouble c7"
      and k7: "core c7 = core (c6\<lparr>sleeps := sleeps c6 @ [retryDelay c5]\<rparr>)" by blast
  from go_Double [OF a7] obtain c8
    where s8: "step (Run n Internal) c7 = Some c8" and a8: "at n AtLoopTop c8"
      and k8: "core c8 = core (c7\<lparr>retryDelay := retryDelay (double_delay c7)\<rparr>)" by blast
  have run: "exec (attempt_fails n f) c = Some c8"
    by (simp add: attempt_fails_def s1 s2 s3 s4 s5 s6 s7 s8)
  have d: "retryDelay c7 = retryDelay c" and d5: "retryDelay c5 = retryDelay c"
    using k1 k2 k3 k4 k5 k6 k7 by (simp_all add: core_def)
  have "retryDelay (double_delay c7) = retryDelay (double_delay c)"
    using d by (simp add: double_delay_def Let_def)
  then have k: "core c8 = core (c\<lparr>status := StatusError, sleeps := sleeps c @ [retryDelay c],
                              retryDelay := retryDelay (double_delay c)\<rparr>)"
    using k1 k2 k3 k4 k5 k6 k7 k8 d5 by (simp add: core_def)
  with a8 op q have "at_loop_top n c8"
    by (simp add: at_loop_top_def core_def)
  with run k show ?thesis by blast
qed


lemma exec_append:
  "exec (xs @ ys) c = (case exec xs c of None \<Rightarrow> None | Some c' \<Rightarrow> exec ys c')"
  by (induction xs arbitrary: c) (simp_all split: option.split)

lemma failures_run:
  assumes "at_loop_top n c" "list_all failure fs" "retryDelay c = backoff k"
  shows "\<exists>c'. exec (concat (map (attempt_fails n) fs)) c = Some c' \<and> at_loop_top n c' \<and>
           sleeps c' = sleeps c @ map backoff [k..<k + length fs] \<and>
           retryDelay c' = backoff (k + length fs)"
  using assms
proof (induction fs arbitrary: c k)
  case Nil
  then show ?case by simp
next
  case (Cons f fs)
  from Cons.prems have f: "failure f" and fs: "list_all failure fs" by simp_all
  from attempt_fails_run [OF Cons.prems(1) f] obtain c1
    where r1: "exec (attempt_fails n f) c = Some c1" and t1: "at_loop_top n c1"
      and k1: "core c1 = core (c\<lparr>status := StatusError, sleeps := sleeps c @ [retryDelay c],
                              retryDelay := retryDelay (double_delay c)\<rparr>)" by blast
  from k1 have d1: "retryDelay c1 = backoff (Suc k)"
    and z1: "sleeps c1 = sleeps c @ [backoff k]"
    using double_backoff [OF Cons.prems(3)] Cons.prems(3) by (simp_all add: core_def)
  from Cons.IH [OF t1 fs d1] obtain c'
    where r: "exec (concat (map (attempt_fails n) fs)) c1 = Some c'"
      and t: "at_loop_top n c'"
      and z: "sleeps c' = sleeps c1 @ map backoff [Suc k..<Suc k + length fs]"
      and d: "retryDelay c' = backoff (Suc k + length fs)" by blast
  have "exec (concat (map (attempt_fails n) (f # fs))) c = Some c'"
    by (simp add: exec_append r1 r)
  moreover have "[k..<k + length (f # fs)] = k # [Suc k..<Suc k + length fs]"
    by (subst upt_rec) simp
  then have "sleeps c' = sleeps c @ map backoff [k..<k + length (f # fs)]"
    using z z1 by simp
  ultimately show ?case using t d by auto
qed

lemma go_Request_ok:
  assumes "at n AtRequest c" "\<not> ctxDone c"
  shows "\<exists>c'. step (Run n (Responds 200)) c = Some c' \<and> at n AtConnected c' \<and>
           core c' = core c \<and> requests c' = requests c @ [new_request c]"
  using assms
    step_Run [OF assms(1), of "Responds 200" AtConnected
                "c\<lparr>requests := requests c @ [new_request c]\<rparr>"]
  by (simp add: at_def core_def)

lemma go_Connected:
  assumes "at n AtConnected c" "never_panics (onStatusChange c)"
  shows "\<exists>c'. step (Run n Internal) c = Some c' \<and> at n AtResetDelay c' \<and>
           core c' = core (c\<lparr>status := StatusConnected\<rparr>)"
  using assms
    step_Run [OF assms(1), of Internal AtResetDelay
                "status_updated StatusConnected (printf ConnectionEstablished c)"]
  by (simp add: at_def core_def proceed_def updateStatus_quiet printf_def)

lemma go_ResetDelay:
  assumes "at n AtResetDelay c"
  shows "\<exists>c'. step (Run n Internal) c = Some c' \<and> at n (AtRead [] []) c' \<and>
           core c' = core (c\<lparr>retryDelay := minRetryDelay\<rparr>)"
  using assms
    step_Run [OF assms(1), of Internal "AtRead [] []" "c\<lparr>retryDelay := minRetryDelay\<rparr>"]
  by (simp add: at_def core_def)

lemma go_Read:
  assumes "at n (AtRead et ed) c" "\<not> ctxDone c"
  shows "\<exists>c'. step (Run n Internal) c = Some c' \<and> at n (AtReadString et ed) c' \<and>
           core c' = core c"
  using assms step_Run [OF assms(1), of Internal "AtReadString et ed" c]
  by (simp add: at_def core_def)

lemma go_ReadString_ends:
  assumes "at n (AtReadString et ed) c"
  shows "\<exists>c'. step (Run n StreamEnds) c = Some c' \<and> at n AtReadError c' \<and> core c' = core c"
  using assms step_Run [OF assms(1), of StreamEnds AtReadError c]
  by (simp add: at_def core_def)

lemma go_ReadError:
  assumes "at n AtReadError c" "\<not> closed c"
  shows "\<exists>c'. step (Run n Internal) c = Some c' \<and> at n AtDisconnected c' \<and> core c' = core c"
  using assms step_Run [OF assms(1), of Internal AtDisconnected "printf ConnectionClosed c"]
  by (simp add: at_def core_def printf_def)

lemma go_Disconnected:
  assumes "at n AtDisconnected c" "never_panics (onStatusChange c)"
  shows "\<exists>c'. step (Run n Internal) c = Some c' \<and> at n AtSchedule c' \<and>
           core c' = core (c\<lparr>status := StatusDisconnected\<rparr>)"
  using assms step_Run [OF assms(1), of Internal AtSchedule "status_updated StatusDisconnected c"]
  by (simp add: at_def core_def proceed_def updateStatus_quiet)

lemma attempt_connects_run:
  assumes "at_loop_top n c"
  shows "\<exists>c'. exec (attempt_connects n) c = Some c' \<and> at n (AtRead [] []) c' \<and>
           core c' = core (c\<lparr>status := StatusConnected, retryDelay := minRetryDelay\<rparr>)"
proof -
  from assms have a0: "at n AtLoopTop c" and op: "\<not> closed c" "\<not> ctxDone c"
    and q: "never_panics (onStatusChange c)"
    by (simp_all add: at_loop_top_def)
  from go_LoopTop [OF a0 op(1)] obtain c1
    where s1: "step (Run n Internal) c = Some c1" and a1: "at n AtConnect c1"
      and k1: "core c1 = core c" by blast
  from k1 q have q1: "never_panics (onStatusChange c1)" by (simp add: core_def)
  from go_Connect [OF a1 q1] obtain c2
    where s2: "step (Run n Internal) c1 = Some c2" and a2: "at n AtRequest c2"
      and k2: "core c2 = core (c1\<lparr>status := StatusConnecting\<rparr>)" by blast
  from k1 k2 op have x2: "\<not> ctxDone c2" by (simp add: core_def)
  from go_Request_ok [OF a2 x2] obtain c3
    where s3: "step (Run n (Responds 200)) c2 = Some c3" and a3: "at n AtConnected c3"
      and k3: "core c3 = core c2" by blast
  from k1 k2 k3 q have q3: "never_panics (onStatusChange c3)" by (simp add: core_def)
  from go_Connected [OF a3 q3] obtain c4
    where s4: "step (Run n Internal) c3 = Some c4" and a4: "at n AtResetDelay c4"
      and k4: "core c4 = core (c3\<lparr>status := StatusConnected\<rparr>)" by blast
  from go_ResetDelay [OF a4] obtain c5
    where s5: "step (Run n Internal) c4 = Some c5" and a5: "at n (AtRead [] []) c5"
      and k5: "core c5 = core (c4\<lparr>retryDelay := minRetryDelay\<rparr>)" by blast
  have "exec (attempt_connects n) c = Some c5"
    by (simp add: attempt_connects_def s1 s2 s3 s4 s5)
  moreover have "core c5 = core (c\<lparr>status := StatusConnected, retryDelay := minRetryDelay\<rparr>)"
    using k1 k2 k3 k4 k5 by (simp add: core_def)
  ultimately show ?thesis using a5 by blast
qed

lemma stream_ends_run:
  assumes "at n (AtRead et ed) c" "\<not> closed c" "\<not> ctxDone c" "never_panics (onStatusChange c)"
  shows "\<exists>c'. exec (stream_ends n) c = Some c' \<and> at_loop_top n c' \<and>
           core c' = core (c\<lparr>status := StatusDisconnected,
                              sleeps := sleeps c @ [retryDelay c],
                              retryDelay := retryDelay (double_delay c)\<rparr>)"
proof -
  note op = assms(2) and x = assms(3) and q = assms(4)
  from go_Read [OF assms(1) x] obtain c1
    where s1: "step (Run n Internal) c = Some c1" and a1: "at n (AtReadString et ed) c1"
      and k1: "core c1 = core c" by blast
  from go_ReadString_ends [OF a1] obtain c2
    where s2: "step (Run n StreamEnds) c1 = Some c2" and a2: "at n AtReadError c2"
      and k2: "core c2 = core c1" by blast
  from k1 k2 op have op2: "\<not> closed c2" by (simp add: core_def)
  from go_ReadError [OF a2 op2] obtain c3
    where s3: "step (Run n Internal) c2 = Some c3" and a3: "at n AtDisconnected c3"
      and k3: "core c3 = core c2" by blast
  from k1 k2 k3 q have q3: "never_panics (onStatusChange c3)" by (simp add: core_def)
  from go_Disconnected [OF a3 q3] obtain c4
    where s4: "step (Run n Internal) c3 = Some c4" and a4: "at n AtSchedule c4"
      and k4: "core c4 = core (c3\<lparr>status := StatusDisconnected\<rparr>)" by blast
  from k1 k2 k3 k4 op have op4: "\<not> closed c4" by (simp add: core_def)
  from go_Schedule [OF a4 op4] obtain c5
    where s5: "step (Run n Internal) c4 = Some c5" and a5: "at n (AtWait (retryDelay c4)) c5"
      and k5: "core c5 = core c4" by blast
  from go_Wait [OF a5] obtain c6
    where s6: "step (Run n TimerFires) c5 = Some c6" and a6: "at n AtDouble c6"
      and k6: "core c6 = core (c5\<lparr>sleeps := sleeps c5 @ [retryDelay c4]\<rparr>)" by blast
  from go_Double [OF a6] obtain c7
    where s7: "step (Run n Internal) c6 = Some c7" and a7: "at n AtLoopTop c7"
      and k7: "core c7 = core (c6\<lparr>retryDelay := retryDelay (double_delay c6)\<rparr>)" by blast
  have run: "exec (stream_ends n) c = Some c7"
    by (simp add: stream_ends_def s1 s2 s3 s4 s5 s6 s7)
  have d: "retryDelay c6 = retryDelay c" and d4: "retryDelay c4 = retryDelay c"
    using k1 k2 k3 k4 k5 k6 by (simp_all add: core_def)
  have "retryDelay (double_delay c6) = retryDelay (double_delay c)"
    using d by (simp add: double_delay_def Let_def)
  then have k: "core c7 = core (c\<lparr>status := StatusDisconnected,
                              sleeps := sleeps c @ [retryDelay c],
                              retryDelay := retryDelay (double_delay c)\<rparr>)"
    using k1 k2 k3 k4 k5 k6 k7 d4 by (simp add: core_def)
  with a7 op x q have "at_loop_top n c7"
    by (simp add: at_loop_top_def core_def)
  with run k show ?thesis by blast
qed

lemma backoff_0: "backoff 0 = minRetryDelay"
  by (simp add: backoff_def minRetryDelay_def maxRetryDelay_def second_def)

lemma backoff_values:
  "map backoff [0..<7]
     = [1 * second, 2 * second, 4 * second, 8 * second, 16 * second, 30 * second, 30 * second]"
  by (simp add: backoff_def minRetryDelay_def maxRetryDelay_def second_def upt_rec)

lemma backoff_capped: "backoff (5 + j) = 30 * second"
proof -
  have "(2::int) ^ 5 \<le> 2 ^ (5 + j)"
    by (rule power_increasing) simp_all
  then have "(32::int) \<le> 2 ^ (5 + j)" by simp
  then show ?thesis
    by (simp add: backoff_def minRetryDelay_def maxRetryDelay_def second_def min_def)
qed

text \<open>
  C3. Goroutine \<open>n\<close> at the top of \<^verbatim>\<open>connectLoop\<close> with the delay at the minimum (as in
  a new client after \<^verbatim>\<open>Connect()\<close>): through any number of connection attempts that
  fail, with no \<open>Connected\<close> between them, the waits are \<open>backoff 0, backoff 1, ...\<close>, that
  is 1, 2, 4, 8, 16, 30, 30, ... seconds, each slept in full before the next attempt, and
  the delay is doubled (and capped at 30 seconds) after each wait. An attempt that then
  connects sets the delay back to the minimum on reaching \<open>Connected\<close>; the end of the
  stream and the failures after it wait 1, 2, 4, ... seconds again.
\<close>

theorem backoff_doubles_to_cap_and_resets:
  assumes "at_loop_top n c" and "retryDelay c = minRetryDelay"
    and "list_all failure fs" and "list_all failure gs"
  shows "\<exists>c1 c2 c3.
     exec (concat (map (attempt_fails n) fs)) c = Some c1 \<and>
     sleeps c1 = sleeps c @ map backoff [0..<length fs] \<and>
     retryDelay c1 = backoff (length fs) \<and>
     exec (attempt_connects n) c1 = Some c2 \<and>
     status c2 = StatusConnected \<and> retryDelay c2 = minRetryDelay \<and> sleeps c2 = sleeps c1 \<and>
     exec (stream_ends n @ concat (map (attempt_fails n) gs)) c2 = Some c3 \<and>
     sleeps c3 = sleeps c2 @ map backoff [0..<Suc (length gs)] \<and>
     retryDelay c3 = backoff (Suc (length gs)) \<and>
     map backoff [0..<7]
       = [1 * second, 2 * second, 4 * second, 8 * second, 16 * second, 30 * second, 30 * second] \<and>
     backoff (5 + j) = 30 * second"
proof -
  from assms(2) have d0: "retryDelay c = backoff 0" by (simp add: backoff_0)
  from failures_run [OF assms(1) assms(3) d0] obtain c1
    where r1: "exec (concat (map (attempt_fails n) fs)) c = Some c1"
      and t1: "at_loop_top n c1"
      and z1: "sleeps c1 = sleeps c @ map backoff [0..<length fs]"
      and d1: "retryDelay c1 = backoff (length fs)" by auto
  from attempt_connects_run [OF t1] obtain c2
    where r2: "exec (attempt_connects n) c1 = Some c2" and a2: "at n (AtRead [] []) c2"
      and k2: "core c2 = core (c1\<lparr>status := StatusConnected, retryDelay := minRetryDelay\<rparr>)"
    by blast
  from k2 t1 have f2: "status c2 = StatusConnected" "retryDelay c2 = minRetryDelay"
    "sleeps c2 = sleeps c1" "\<not> closed c2" "\<not> ctxDone c2" "never_panics (onStatusChange c2)"
    by (simp_all add: core_def at_loop_top_def)
  from stream_ends_run [OF a2 f2(4) f2(5) f2(6)] obtain c2'
    where r3: "exec (stream_ends n) c2 = Some c2'" and t3: "at_loop_top n c2'"
      and k3: "core c2' = core (c2\<lparr>status := StatusDisconnected,
                              sleeps := sleeps c2 @ [retryDelay c2],
                              retryDelay := retryDelay (double_delay c2)\<rparr>)" by blast
  from f2(2) have "retryDelay c2 = backoff 0" by (simp add: backoff_0)
  from double_backoff [OF this] k3 f2(2)
  have d3: "retryDelay c2' = backoff (Suc 0)" and z3: "sleeps c2' = sleeps c2 @ [backoff 0]"
    by (simp_all add: core_def backoff_0)
  from failures_run [OF t3 assms(4) d3] obtain c3
    where r4: "exec (concat (map (attempt_fails n) gs)) c2' = Some c3"
      and z4: "sleeps c3 = sleeps c2' @ map backoff [Suc 0..<Suc 0 + length gs]"
      and d4: "retryDelay c3 = backoff (Suc 0 + length gs)" by blast
  have "exec (stream_ends n @ concat (map (attempt_fails n) gs)) c2 = Some c3"
    by (simp add: exec_append r3 r4)
  moreover have "[0..<Suc (length gs)] = 0 # [Suc 0..<Suc 0 + length gs]"
    by (subst upt_rec) simp
  then have "sleeps c3 = sleeps c2 @ map backoff [0..<Suc (length gs)]"
    using z3 z4 by simp
  ultimately show ?thesis
    using r1 z1 d1 r2 f2(1,2,3) d4 backoff_values backoff_capped by auto
qed

theorem backoff_doubles_to_cap_and_resets_witness:
  "at_loop_top 0 (Connect test_client) \<and>
   retryDelay (Connect test_client) = minRetryDelay \<and>
   list_all failure [Responds 500, DoFails ''connection refused'', NewRequestFails ''bad URL''] \<and>
   list_all failure [Responds 503] \<and>
   (\<exists>c1 c2 c3.
     exec (concat (map (attempt_fails 0)
             [Responds 500, DoFails ''connection refused'', NewRequestFails ''bad URL'']))
       (Connect test_client) = Some c1 \<and>
     sleeps c1 = [1 * second, 2 * second, 4 * second] \<and>
     retryDelay c1 = 8 * second \<and>
     exec (attempt_connects 0) c1 = Some c2 \<and>
     status c2 = StatusConnected \<and> retryDelay c2 = 1 * second \<and>
     exec (stream_ends 0 @ concat (map (attempt_fails 0) [Responds 503])) c2 = Some c3 \<and>
     sleeps c3 = [1 * second, 2 * second, 4 * second, 1 * second, 2 * second] \<and>
     retryDelay c3 = 4 * second)"
proof -
  have h1: "at_loop_top 0 (Connect test_client)"
    by (simp add: at_loop_top_def at_def never_panics_def Connect_def test_client_def
                  NewSseClient_def status_recorder_def)
  have h2: "retryDelay (Connect test_client) = minRetryDelay"
    by (simp add: Connect_def test_client_def NewSseClient_def)
  have h3: "list_all failure
              [Responds 500, DoFails ''connection refused'', NewRequestFails ''bad URL'']"
    by simp
  have h4: "list_all failure [Responds 503]"
    by simp
  have z: "sleeps (Connect test_client) = []"
    by (simp add: Connect_def test_client_def NewSseClient_def)
  have b: "map backoff [0..<3] = [1 * second, 2 * second, 4 * second]"
    "map backoff [0..<2] = [1 * second, 2 * second]"
    "backoff 3 = 8 * second" "backoff 2 = 4 * second"
    by (simp_all add: backoff_def minRetryDelay_def maxRetryDelay_def second_def upt_rec)
  define fs where "fs = [Responds 500, DoFails ''connection refused'', NewRequestFails ''bad URL'']"
  define gs where "gs = [Responds 503]"
  have n: "length fs = 3" "length gs = 1"
    by (simp_all add: fs_def gs_def)
  from backoff_doubles_to_cap_and_resets [OF h1 h2 h3 h4, of 0] obtain c1 c2 c3 where
    r: "exec (concat (map (attempt_fails 0) fs)) (Connect test_client) = Some c1"
      "exec (attempt_connects 0) c1 = Some c2"
      "exec (stream_ends 0 @ concat (map (attempt_fails 0) gs)) c2 = Some c3"
      "status c2 = StatusConnected"
    and v: "sleeps c1 = sleeps (Connect test_client) @ map backoff [0..<length fs]"
      "retryDelay c1 = backoff (length fs)"
      "retryDelay c2 = minRetryDelay" "sleeps c2 = sleeps c1"
      "sleeps c3 = sleeps c2 @ map backoff [0..<Suc (length gs)]"
      "retryDelay c3 = backoff (Suc (length gs))"
    unfolding fs_def gs_def by blast
  have "sleeps c1 = [1 * second, 2 * second, 4 * second]"
    and "retryDelay c1 = 8 * second" and "retryDelay c2 = 1 * second"
    and "sleeps c3 = [1 * second, 2 * second, 4 * second, 1 * second, 2 * second]"
    and "retryDelay c3 = 4 * second"
    using v z b unfolding n by (simp_all add: minRetryDelay_def numeral_2_eq_2)
  with r have "exec (concat (map (attempt_fails 0)
             [Responds 500, DoFails ''connection refused'', NewRequestFails ''bad URL'']))
       (Connect test_client) = Some c1 \<and>
     sleeps c1 = [1 * second, 2 * second, 4 * second] \<and>
     retryDelay c1 = 8 * second \<and>
     exec (attempt_connects 0) c1 = Some c2 \<and>
     status c2 = StatusConnected \<and> retryDelay c2 = 1 * second \<and>
     exec (stream_ends 0 @ concat (map (attempt_fails 0) [Responds 503])) c2 = Some c3 \<and>
     sleeps c3 = [1 * second, 2 * second, 4 * second, 1 * second, 2 * second] \<and>
     retryDelay c3 = 4 * second"
    unfolding fs_def gs_def by blast
  then show ?thesis
    using h1 h2 h3 h4 by blast
qed

section \<open>Close, outside the race\<close>

text \<open>
  \<^verbatim>\<open>Close\<close> twice, with a status callback that never panics: both calls return, and the
  second leaves the client closed, its context cancelled, its status \<open>disconnected\<close>.
\<close>

lemma Close_quiet:
  assumes "never_panics (onStatusChange c)"
  shows "Close c = Returned () (status_updated StatusDisconnected (c\<lparr>closed := True, ctxDone := True\<rparr>))"
  using updateStatus_quiet [of "c\<lparr>closed := True, ctxDone := True\<rparr>" StatusDisconnected] assms
  by (simp add: Close_def Let_def)

lemma Close_twice_returns:
  assumes "never_panics (onStatusChange c)"
  shows "\<exists>c1 c2. Close c = Returned () c1 \<and> Close c1 = Returned () c2 \<and>
           closed c2 \<and> ctxDone c2 \<and> status c1 = StatusDisconnected \<and>
           status c2 = StatusDisconnected \<and> goroutines c2 = goroutines c \<and>
           retryDelay c2 = retryDelay c"
proof -
  let ?c1 = "status_updated StatusDisconnected (c\<lparr>closed := True, ctxDone := True\<rparr>)"
  have 1: "Close c = Returned () ?c1"
    by (rule Close_quiet [OF assms])
  have "never_panics (onStatusChange ?c1)"
    using assms by simp
  then have 2: "Close ?c1
      = Returned () (status_updated StatusDisconnected (?c1\<lparr>closed := True, ctxDone := True\<rparr>))"
    by (rule Close_quiet)
  show ?thesis
    by (simp add: 1 2)
qed

text \<open>
  \<^verbatim>\<open>Close\<close> while goroutine \<open>n\<close> is in the backoff wait, with a status callback that
  never panics: the wait sees the cancelled context, \<^verbatim>\<open>scheduleReconnect\<close> returns without
  doubling the delay, and \<^verbatim>\<open>connectLoop\<close> returns at its next check of \<open>closed\<close>; no
  request has been sent and no wait has been slept in full.
\<close>

lemma Close_during_backoff_wait:
  assumes "at n (AtWait d) c" and "never_panics (onStatusChange c)"
  shows "\<exists>c'. exec (call_Close @ [Run n Cancelled, Run n Internal]) c = Some c' \<and>
           at n Exited c' \<and> retryDelay c' = retryDelay c \<and> requests c' = requests c \<and>
           sleeps c' = sleeps c \<and> status c' = StatusDisconnected \<and> closed c'"
proof -
  let ?c1 = "status_updated StatusDisconnected (c\<lparr>closed := True, ctxDone := True\<rparr>)"
  have f: "fault c = None"
    using assms(1) by (simp add: at_def)
  have q: "updateStatus StatusDisconnected (c\<lparr>closed := True, ctxDone := True\<rparr>)
      = Returned () ?c1"
    using updateStatus_quiet [of "c\<lparr>closed := True, ctxDone := True\<rparr>" StatusDisconnected]
      assms(2) by simp
  have e1: "exec call_Close c = Some ?c1"
    using f q by (simp add: call_Close_def step_def)
  have a1: "at n (AtWait d) ?c1"
    using assms(1) by (simp add: at_def)
  let ?c2 = "?c1\<lparr>goroutines := (goroutines ?c1)[n := AtLoopTop]\<rparr>"
  have s2: "step (Run n Cancelled) ?c1 = Some ?c2"
    by (rule step_Run [OF a1]) simp
  have a2: "at n AtLoopTop ?c2"
    using assms(1) by (simp add: at_def)
  let ?c3 = "?c2\<lparr>goroutines := (goroutines ?c2)[n := Exited]\<rparr>"
  have s3: "step (Run n Internal) ?c2 = Some ?c3"
    by (rule step_Run [OF a2]) simp
  have e: "exec (call_Close @ [Run n Cancelled, Run n Internal]) c = Some ?c3"
    using e1 s2 s3 by (simp add: exec_append)
  have "at n Exited ?c3 \<and> retryDelay ?c3 = retryDelay c \<and> requests ?c3 = requests c \<and>
        sleeps ?c3 = sleeps c \<and> status ?c3 = StatusDisconnected \<and> closed ?c3"
    using assms(1) by (simp add: at_def)
  with e show ?thesis
    by blast
qed

section \<open>Properties of the request headers\<close>

lemma range_headers_snoc:
  "range_headers (ts @ [(key, v)]) h = Header_Set key v (range_headers ts h)"
  by (induction ts arbitrary: h) auto

lemma range_headers_miss:
  "\<forall>(key, v) \<in> set ts. CanonicalMIMEHeaderKey key \<noteq> k \<Longrightarrow> range_headers ts h k = h k"
  by (induction ts arbitrary: h) (auto simp: Header_Set_def)

lemma range_headers_hit:
  assumes "(key, v) \<in> set ts" and "CanonicalMIMEHeaderKey key = k"
  shows "\<exists>key' v'. (key', v') \<in> set ts \<and> CanonicalMIMEHeaderKey key' = k \<and>
           range_headers ts h k = Some [v']"
  using assms
proof (induction ts rule: rev_induct)
  case Nil
  then show ?case by simp
next
  case (snoc x ts)
  obtain a b where x: "x = (a, b)" by (cases x)
  show ?case
  proof (cases "CanonicalMIMEHeaderKey a = k")
    case True
    then show ?thesis
      by (auto simp: x range_headers_snoc Header_Set_def)
  next
    case False
    with snoc.prems x have "(key, v) \<in> set ts" by auto
    from snoc.IH [OF this snoc.prems(2)] False show ?thesis
      by (auto simp: x range_headers_snoc Header_Set_def)
  qed
qed

lemma Do_sends_new_request:
  assumes "at n AtRequest c" and "\<not> ctxDone c"
  shows "\<exists>c'. step (Run n (Responds code)) c = Some c' \<and>
           requests c' = requests c @ [new_request c]"
  using assms by (simp add: step_def at_def Let_def)

text \<open>
  C10. A telemetry header \<open>key\<close> of the caller whose canonical name is that of the header
  \<open>name\<close> (as \<open>accept\<close> and \<open>Accept\<close>, or \<open>x-api-key\<close> and \<open>X-API-Key\<close>): the request
  that \<^verbatim>\<open>connect\<close> builds, and that \<^verbatim>\<open>httpClient.Do\<close> sends, carries under \<open>name\<close> a
  value of the caller's with that canonical name, never the client's own; when \<open>key\<close> is
  the caller's only header with that canonical name, it carries the value of \<open>key\<close>.
\<close>

theorem telemetry_header_overrides_client_header:
  assumes "(key, v) \<in> set (telemetryHeaders c)"
    and "CanonicalMIMEHeaderKey key = CanonicalMIMEHeaderKey name"
    and "distinct (map fst (telemetryHeaders c))"
    and "at n AtRequest c" and "\<not> ctxDone c"
  shows "\<exists>c' key' v'.
     step (Run n (Responds code)) c = Some c' \<and>
     last (requests c') = new_request c \<and>
     (key', v') \<in> set (telemetryHeaders c) \<and>
     CanonicalMIMEHeaderKey key' = CanonicalMIMEHeaderKey name \<and>
     Header_Get (Header (last (requests c'))) name = v' \<and>
     ((\<forall>k \<in> fst ` set (telemetryHeaders c).
         CanonicalMIMEHeaderKey k = CanonicalMIMEHeaderKey name \<longrightarrow> k = key)
       \<longrightarrow> Header_Get (Header (last (requests c'))) name = v)"
proof -
  from Do_sends_new_request [OF assms(4) assms(5), of code] obtain c'
    where s: "step (Run n (Responds code)) c = Some c'"
      and l: "last (requests c') = new_request c" by auto
  define h3 where "h3 = Header_Set ''Cache-Control'' ''no-cache''
     (Header_Set ''Accept'' ''text/event-stream'' (Header_Set ''X-API-Key'' (apiKey c) Map.empty))"
  have hdr: "Header (new_request c) = range_headers (telemetryHeaders c) h3"
    by (simp add: new_request_def h3_def Let_def)
  from range_headers_hit [OF assms(1) assms(2), of h3] obtain key' v'
    where m: "(key', v') \<in> set (telemetryHeaders c)"
      and k: "CanonicalMIMEHeaderKey key' = CanonicalMIMEHeaderKey name"
      and g: "range_headers (telemetryHeaders c) h3 (CanonicalMIMEHeaderKey name) = Some [v']"
    by blast
  have get: "Header_Get (Header (last (requests c'))) name = v'"
    by (simp add: l hdr Header_Get_def g)
  have "v' = v"
    if only: "\<forall>k \<in> fst ` set (telemetryHeaders c).
                CanonicalMIMEHeaderKey k = CanonicalMIMEHeaderKey name \<longrightarrow> k = key"
  proof -
    from m have "key' \<in> fst ` set (telemetryHeaders c)" by force
    with only k have "key' = key" by blast
    with m assms(1) assms(3) show ?thesis
      by (metis eq_key_imp_eq_value)
  qed
  with s l m k get show ?thesis by blast
qed

theorem telemetry_header_overrides_client_header_witness:
  "(''accept'', ''application/json'')
     \<in> set (telemetryHeaders (telemetry_client\<lparr>goroutines := [AtRequest]\<rparr>)) \<and>
   CanonicalMIMEHeaderKey ''accept'' = CanonicalMIMEHeaderKey ''Accept'' \<and>
   distinct (map fst (telemetryHeaders (telemetry_client\<lparr>goroutines := [AtRequest]\<rparr>))) \<and>
   at 0 AtRequest (telemetry_client\<lparr>goroutines := [AtRequest]\<rparr>) \<and>
   \<not> ctxDone (telemetry_client\<lparr>goroutines := [AtRequest]\<rparr>) \<and>
   filter (\<lambda>k. CanonicalMIMEHeaderKey k = CanonicalMIMEHeaderKey ''Accept'')
     (map fst (telemetryHeaders (telemetry_client\<lparr>goroutines := [AtRequest]\<rparr>)))
     = [''accept''] \<and>
   (\<exists>c'. step (Run 0 (Responds 200)) (telemetry_client\<lparr>goroutines := [AtRequest]\<rparr>) = Some c' \<and>
      Header_Get (Header (last (requests c'))) ''Accept'' = ''application/json'')"
proof -
  let ?c = "telemetry_client\<lparr>goroutines := [AtRequest]\<rparr>"
  have t: "telemetryHeaders ?c
      = [(''accept'', ''application/json''), (''X-Flipswitch-SDK'', ''go/0.1.0'')]"
    by (simp add: telemetry_client_def NewSseClient_def)
  have h1: "(''accept'', ''application/json'') \<in> set (telemetryHeaders ?c)"
    unfolding t by simp
  have h2: "CanonicalMIMEHeaderKey ''accept'' = CanonicalMIMEHeaderKey ''Accept''"
    by code_simp
  have h3: "distinct (map fst (telemetryHeaders ?c))"
    unfolding t by simp
  have h4: "at 0 AtRequest ?c"
    by (simp add: at_def telemetry_client_def NewSseClient_def)
  have h5: "\<not> ctxDone ?c"
    by (simp add: telemetry_client_def NewSseClient_def)
  have other: "CanonicalMIMEHeaderKey ''X-Flipswitch-SDK'' \<noteq> CanonicalMIMEHeaderKey ''Accept''"
    by code_simp
  have h6: "\<forall>k \<in> fst ` set (telemetryHeaders ?c).
      CanonicalMIMEHeaderKey k = CanonicalMIMEHeaderKey ''Accept'' \<longrightarrow> k = ''accept''"
    unfolding t using other by auto
  have h7: "filter (\<lambda>k. CanonicalMIMEHeaderKey k = CanonicalMIMEHeaderKey ''Accept'')
      (map fst (telemetryHeaders ?c)) = [''accept'']"
    unfolding t using other h2 by simp
  from telemetry_header_overrides_client_header [OF h1 h2 h3 h4 h5, of 200] h6
  have "\<exists>c'. step (Run 0 (Responds 200)) ?c = Some c' \<and>
      Header_Get (Header (last (requests c'))) ''Accept'' = ''application/json''"
    by blast
  with h1 h2 h3 h4 h5 h7 show ?thesis
    by blast
qed

section \<open>Properties of the event handler\<close>

lemma plain_not_special:
  "plain c \<Longrightarrow> c \<noteq> dquote \<and> c \<noteq> backslash \<and> \<not> byte c < 0x20 \<and> byte c < 0x80"
  by (simp add: plain_def)

lemma string_extent_plain:
  "list_all plain s \<Longrightarrow> string_extent (s @ dquote # rest) = Some (length s)"
  by (induction s) (simp_all add: plain_not_special)

lemma unquote_plain: "list_all plain s \<Longrightarrow> unquote s = s"
  by (induction s) (simp_all add: plain_not_special)

lemma dquote_is_no_other_token:
  "\<not> is_json_space dquote" "dquote \<noteq> CHR ''{''" "dquote \<noteq> CHR ''}''"
  "dquote \<noteq> CHR ''[''" "dquote \<noteq> CHR '']''" "dquote \<noteq> CHR '':''" "dquote \<noteq> CHR '',''"
  by (simp_all add: is_json_space_def dquote_def)

lemma tokens_quoted:
  assumes "list_all plain s"
  shows "tokens (quoted s @ rest) = TString s # tokens rest"
proof -
  have "tokens (dquote # s @ dquote # rest) = TString s # tokens rest"
    by (simp add: string_extent_plain [OF assms] unquote_plain [OF assms]
                  dquote_is_no_other_token)
  then show ?thesis by (simp add: quoted_def)
qed

lemma plain_names: "list_all plain ''flagKey''" "list_all plain ''timestamp''" "list_all plain ''validUntil''"
  by code_simp+

lemma tokens_flag_updated:
  assumes "list_all plain K" "list_all plain T"
  shows "tokens (flag_updated_payload K T)
    = [TLBrace, TString ''flagKey'', TColon, TString K, TComma, TString ''timestamp'', TColon,
       TString T, TRBrace]"
proof -
  have 1: "tokens (''{'' @ r) = TLBrace # tokens r" for r
    by (simp add: is_json_space_def)
  have 2: "tokens ('':'' @ r) = TColon # tokens r" for r
    by (simp add: is_json_space_def dquote_def)
  have 3: "tokens ('','' @ r) = TComma # tokens r" for r
    by (simp add: is_json_space_def dquote_def)
  have 4: "tokens ''}'' = [TRBrace]"
    by (simp add: is_json_space_def dquote_def)
  show ?thesis
    unfolding flag_updated_payload_def
    by (simp only: 1 2 3 4 tokens_quoted [OF plain_names(1)] tokens_quoted [OF plain_names(2)]
        tokens_quoted [OF assms(1)] tokens_quoted [OF assms(2)] append_assoc)
qed

lemma Unmarshal_flag_updated:
  assumes "list_all plain K" "list_all plain T"
  shows "\<exists>parsed. Unmarshal FlagUpdatedEvent (flag_updated_payload K T) = Inr parsed \<and>
     parsed ''flagKey'' = K \<and> parsed ''timestamp'' = T"
  by (simp add: Unmarshal_def parse_json_def tokens_flag_updated [OF assms] parse_step_def
        begin_value_def open_container_def maxNestingDepth_def take_key_def after_value_def
        close_object_def find_field_def FlagUpdatedEvent_def)


lemma tokens_config_updated:
  assumes "list_all plain T"
  shows "tokens (config_updated_payload T)
    = [TLBrace, TString ''timestamp'', TColon, TString T, TRBrace]"
proof -
  have 1: "tokens (''{'' @ r) = TLBrace # tokens r" for r
    by (simp add: is_json_space_def)
  have 2: "tokens ('':'' @ r) = TColon # tokens r" for r
    by (simp add: is_json_space_def dquote_def)
  have 4: "tokens ''}'' = [TRBrace]"
    by (simp add: is_json_space_def dquote_def)
  show ?thesis
    unfolding config_updated_payload_def
    by (simp only: 1 2 4 tokens_quoted [OF plain_names(2)] tokens_quoted [OF assms] append_assoc)
qed

lemma Unmarshal_config_updated:
  assumes "list_all plain T"
  shows "\<exists>parsed. Unmarshal ConfigUpdatedEvent (config_updated_payload T) = Inr parsed \<and>
     parsed ''timestamp'' = T"
  by (simp add: Unmarshal_def parse_json_def tokens_config_updated [OF assms] parse_step_def
        begin_value_def open_container_def maxNestingDepth_def take_key_def after_value_def
        close_object_def find_field_def ConfigUpdatedEvent_def)

lemma handleEvent_flag_updated:
  assumes "list_all plain K" "list_all plain T"
  shows "handleEvent ''flag-updated'' (flag_updated_payload K T) c
     = deliver \<lparr>FlagKey = K, Timestamp = T\<rparr> c"
proof -
  from Unmarshal_flag_updated [OF assms] obtain parsed
    where "Unmarshal FlagUpdatedEvent (flag_updated_payload K T) = Inr parsed"
      and "parsed ''flagKey'' = K" and "parsed ''timestamp'' = T" by blast
  then show ?thesis
    by (simp add: handleEvent_def deliver_def)
qed

lemma handleEvent_config_updated:
  assumes "list_all plain T"
  shows "handleEvent ''config-updated'' (config_updated_payload T) c
     = deliver \<lparr>FlagKey = [], Timestamp = T\<rparr> c"
proof -
  from Unmarshal_config_updated [OF assms] obtain parsed
    where "Unmarshal ConfigUpdatedEvent (config_updated_payload T) = Inr parsed"
      and "parsed ''timestamp'' = T" by blast
  then show ?thesis
    by (simp add: handleEvent_def deliver_def)
qed

lemma white_space_nonempty: "\<forall>sp \<in> set white_space. sp \<noteq> []"
  by (simp add: white_space_def)

lemma space_at_head_solid: "solid c \<Longrightarrow> space_at_head (c # cs) = 0"
proof -
  assume s: "solid c"
  have "\<not> HasPrefix (c # cs) sp" if "sp \<in> set white_space" for sp
  proof -
    from that white_space_nonempty have "sp \<noteq> []" by blast
    then obtain a r where sp: "sp = a # r"
      by (cases sp) auto
    from s that have "hd sp \<noteq> c" by (auto simp: solid_def)
    then show ?thesis by (simp add: sp HasPrefix_def)
  qed
  then have "find (HasPrefix (c # cs)) white_space = None"
    by (simp add: find_None_iff)
  then show ?thesis by (simp add: space_at_head_def)
qed

lemma space_at_end_solid: "solid c \<Longrightarrow> space_at_end (cs @ [c]) = 0"
proof -
  assume s: "solid c"
  have "\<not> HasPrefix (rev (cs @ [c])) (rev sp)" if "sp \<in> set white_space" for sp
  proof -
    from that white_space_nonempty have ne: "sp \<noteq> []" by blast
    then obtain a r where sp: "rev sp = a # r"
      by (cases "rev sp") auto
    from s that have "last sp \<noteq> c" by (auto simp: solid_def)
    moreover from sp ne have "a = last sp"
      by (metis last_rev list.sel(1) rev_rev_ident hd_rev)
    ultimately show ?thesis by (simp add: sp HasPrefix_def)
  qed
  then have "find (\<lambda>sp. HasPrefix (rev (cs @ [c])) (rev sp)) white_space = None"
    by (simp add: find_None_iff)
  then show ?thesis by (simp add: space_at_end_def)
qed

lemma trim_left_solid: "solid a \<Longrightarrow> trim_left (a # s) = a # s"
  by (simp add: space_at_head_solid)

lemma trim_right_rev_solid: "solid b \<Longrightarrow> trim_right_rev (b # s) = b # s"
  using space_at_end_solid [of b "rev s"] by simp

lemma trim_left_space: "trim_left (CHR '' '' # s) = trim_left s"
  by (simp add: space_at_head_def white_space_def HasPrefix_def)

lemma trim_right_rev_newline: "trim_right_rev (newline # s) = trim_right_rev s"
  by (simp add: space_at_end_def white_space_def HasPrefix_def newline_def)

lemma solid_chars: "solid (CHR ''{'')" "solid (CHR ''}'')" "solid (CHR ''d'')" "solid (CHR ''e'')"
  by code_simp+


lemma TrimSpace_newline_end:
  assumes "solid a" "solid b"
  shows "TrimSpace (a # mid @ [b] @ [newline]) = a # mid @ [b]"
proof -
  have r: "rev (a # mid @ [b] @ [newline]) = newline # b # rev mid @ [a]"
    by simp
  show ?thesis
    unfolding TrimSpace_def trim_left_solid [OF assms(1)] r trim_right_rev_newline
      trim_right_rev_solid [OF assms(2)]
    by simp
qed

lemma TrimSpace_leading_space:
  assumes "solid a" "solid b"
  shows "TrimSpace (CHR '' '' # a # mid @ [b]) = a # mid @ [b]"
proof -
  have r: "rev (a # mid @ [b]) = b # rev mid @ [a]"
    by simp
  show ?thesis
    unfolding TrimSpace_def trim_left_space trim_left_solid [OF assms(1)] r
      trim_right_rev_solid [OF assms(2)]
    by simp
qed

lemma TrimSpace_blank: "TrimSpace [newline] = []"
  by code_simp

lemma read_data_line:
  assumes "solid a" "solid b"
  shows "read_line (data_line (a # mid @ [b])) et ed c = Some (AtRead et (a # mid @ [b]), c)"
proof -
  have "data_line (a # mid @ [b]) = CHR ''d'' # (''ata: '' @ a # mid) @ [b] @ [newline]"
    by (simp add: data_line_def)
  then have t: "TrimSpace (data_line (a # mid @ [b])) = ''data: '' @ a # mid @ [b]"
    using TrimSpace_newline_end [OF solid_chars(3) assms(2), of "''ata: '' @ a # mid"] by simp
  show ?thesis
    unfolding read_line_def t Let_def
    using TrimSpace_leading_space [OF assms, of mid] by (simp add: HasPrefix_def)
qed

lemma event_lines:
  "TrimSpace (event_line ''flag-updated'') = ''event: flag-updated''"
  "TrimSpace (drop 6 ''event: flag-updated'') = ''flag-updated''"
  "TrimSpace (event_line ''config-updated'') = ''event: config-updated''"
  "TrimSpace (drop 6 ''event: config-updated'') = ''config-updated''"
  by code_simp+

lemma read_event_line:
  "read_line (event_line ''flag-updated'') et ed c = Some (AtRead ''flag-updated'' ed, c)"
  "read_line (event_line ''config-updated'') et ed c = Some (AtRead ''config-updated'' ed, c)"
  unfolding read_line_def Let_def event_lines by (simp_all add: HasPrefix_def)

lemma read_blank_line:
  "data \<noteq> [] \<Longrightarrow> read_line [newline] et data c = proceed (AtRead [] []) (handleEvent et data c)"
  unfolding read_line_def Let_def TrimSpace_blank by (simp add: HasPrefix_def)

lemma step_Run_move:
  assumes "at n k c" and "goroutine_step k i c = Some (k', c')"
  shows "step (Run n i) c = Some (move n k' c')"
  using assms by (simp add: step_def at_def move_def)

lemma at_move: "at n k c \<Longrightarrow> at n k' (move n k' c)"
  by (simp add: at_def move_def)

lemma move_move: "move n k (move n k' c) = move n k c"
  by (simp add: move_def)

lemma ctxDone_move: "ctxDone (move n k c) = ctxDone c"
  by (simp add: move_def)

lemma handleEvent_move:
  "handleEvent et d (move n k c) =
     (case handleEvent et d c of
        Returned u c' \<Rightarrow> Returned u (move n k c')
      | Panicked v c' \<Rightarrow> Panicked v (move n k c'))"
  by (simp add: handleEvent_def move_def printf_def in_world_def Let_def
           split: sum.split option.split outcome.split)

lemma frame_handled_move:
  "frame_handled n (handleEvent et d (move n k c)) = frame_handled n (handleEvent et d c)"
  unfolding handleEvent_move
  by (cases "handleEvent et d c") (simp_all add: frame_handled_def move_def)

lemma dispatch_at_blank_line:
  assumes "at n (AtReadString et data) c" "data \<noteq> []"
  shows "step (Run n (Line [newline])) c = Some (frame_handled n (handleEvent et data c))"
proof (cases "handleEvent et data c")
  case (Returned u c')
  then have "goroutine_step (AtReadString et data) (Line [newline]) c = Some (AtRead [] [], c')"
    by (simp add: read_blank_line [OF assms(2)] proceed_def)
  from step_Run_move [OF assms(1) this] Returned show ?thesis
    by (simp add: frame_handled_def)
next
  case (Panicked v c')
  then have "goroutine_step (AtReadString et data) (Line [newline]) c
      = Some (Crashed v, c'\<lparr>fault := Some v\<rparr>)"
    by (simp add: read_blank_line [OF assms(2)] proceed_def)
  from step_Run_move [OF assms(1) this] Panicked show ?thesis
    by (simp add: frame_handled_def)
qed

lemma reads_frame_run:
  fixes c :: "'w SseClient"
  assumes "at n (AtRead et ed) c" "\<not> ctxDone c" "solid a" "solid b"
    and "\<And>et ed (c :: 'w SseClient).
           read_line (event_line eventType) et ed c = Some (AtRead eventType ed, c)"
  shows "exec (reads_frame n eventType (a # mid @ [b])) c
     = Some (frame_handled n (handleEvent eventType (a # mid @ [b]) c))"
proof -
  let ?p = "a # mid @ [b]"
  define c1 where "c1 = move n (AtReadString et ed) c"
  define c2 where "c2 = move n (AtRead eventType ed) c"
  define c3 where "c3 = move n (AtReadString eventType ed) c"
  define c4 where "c4 = move n (AtRead eventType ?p) c"
  define c5 where "c5 = move n (AtReadString eventType ?p) c"
  have s1: "step (Run n Internal) c = Some c1"
    using step_Run_move [OF assms(1), of Internal "AtReadString et ed" c] assms(2)
    by (simp add: c1_def)
  have a1: "at n (AtReadString et ed) c1"
    unfolding c1_def by (rule at_move [OF assms(1)])
  have s2: "step (Run n (Line (event_line eventType))) c1 = Some c2"
    using step_Run_move [OF a1, of "Line (event_line eventType)" "AtRead eventType ed" c1]
    by (simp add: assms(5) c1_def c2_def move_move)
  have a2: "at n (AtRead eventType ed) c2"
    unfolding c2_def by (rule at_move [OF assms(1)])
  have s3: "step (Run n Internal) c2 = Some c3"
    using step_Run_move [OF a2, of Internal "AtReadString eventType ed" c2] assms(2)
    by (simp add: c2_def c3_def move_move ctxDone_move)
  have a3: "at n (AtReadString eventType ed) c3"
    unfolding c3_def by (rule at_move [OF assms(1)])
  have s4: "step (Run n (Line (data_line ?p))) c3 = Some c4"
    using step_Run_move [OF a3, of "Line (data_line ?p)" "AtRead eventType ?p" c3]
    by (simp add: read_data_line [OF assms(3) assms(4)] c3_def c4_def move_move)
  have a4: "at n (AtRead eventType ?p) c4"
    unfolding c4_def by (rule at_move [OF assms(1)])
  have s5: "step (Run n Internal) c4 = Some c5"
    using step_Run_move [OF a4, of Internal "AtReadString eventType ?p" c4] assms(2)
    by (simp add: c4_def c5_def move_move ctxDone_move)
  have a5: "at n (AtReadString eventType ?p) c5"
    unfolding c5_def by (rule at_move [OF assms(1)])
  have s6: "step (Run n (Line [newline])) c5
      = Some (frame_handled n (handleEvent eventType ?p c))"
    using dispatch_at_blank_line [OF a5] by (simp add: c5_def frame_handled_move)
  show ?thesis
    by (simp add: reads_frame_def s1 s2 s3 s4 s5 s6)
qed

lemma at_ctxDone_listening:
  "at 0 (AtRead [] []) listening_client" "\<not> ctxDone listening_client"
  by (simp_all add: at_def listening_client_def NewSseClient_def)

lemma spec_strings_plain:
  "list_all plain ''beta''" "list_all plain ''2024-03-15T10:30:00Z''"
  "list_all plain ''2024-05-20T08:00:00Z''"
  by code_simp+

lemma payload_ends:
  "flag_updated_payload K T
     = CHR ''{'' # (quoted ''flagKey'' @ '':'' @ quoted K @ '','' @ quoted ''timestamp'' @ '':''
         @ quoted T) @ [CHR ''}'']"
  "config_updated_payload T = CHR ''{'' # (quoted ''timestamp'' @ '':'' @ quoted T) @ [CHR ''}'']"
  by (simp_all add: flag_updated_payload_def config_updated_payload_def)

lemma reads_flag_updated_frame:
  fixes c :: "'w SseClient"
  assumes "list_all plain K" "list_all plain T" "at n (AtRead et ed) c" "\<not> ctxDone c"
  shows "exec (reads_frame n ''flag-updated'' (flag_updated_payload K T)) c
     = Some (frame_handled n (deliver \<lparr>FlagKey = K, Timestamp = T\<rparr> c))"
proof -
  let ?mid = "quoted ''flagKey'' @ '':'' @ quoted K @ '','' @ quoted ''timestamp'' @ '':''
                @ quoted T"
  have "exec (reads_frame n ''flag-updated'' (CHR ''{'' # ?mid @ [CHR ''}''])) c
      = Some (frame_handled n (handleEvent ''flag-updated'' (CHR ''{'' # ?mid @ [CHR ''}'']) c))"
    by (rule reads_frame_run [OF assms(3) assms(4) solid_chars(1) solid_chars(2)
                                 read_event_line(1)])
  then show ?thesis
    unfolding payload_ends(1) [symmetric] handleEvent_flag_updated [OF assms(1) assms(2)] .
qed

lemma reads_config_updated_frame:
  fixes c :: "'w SseClient"
  assumes "list_all plain T" "at n (AtRead et ed) c" "\<not> ctxDone c"
  shows "exec (reads_frame n ''config-updated'' (config_updated_payload T)) c
     = Some (frame_handled n (deliver \<lparr>FlagKey = [], Timestamp = T\<rparr> c))"
proof -
  let ?mid = "quoted ''timestamp'' @ '':'' @ quoted T"
  have "exec (reads_frame n ''config-updated'' (CHR ''{'' # ?mid @ [CHR ''}''])) c
      = Some (frame_handled n (handleEvent ''config-updated'' (CHR ''{'' # ?mid @ [CHR ''}'']) c))"
    by (rule reads_frame_run [OF assms(2) assms(3) solid_chars(1) solid_chars(2)
                                 read_event_line(2)])
  then show ?thesis
    unfolding payload_ends(2) [symmetric] handleEvent_config_updated [OF assms(1)] .
qed

text \<open>
  C6. For strings \<open>K\<close>, \<open>T\<close> and \<open>T'\<close> of printable ASCII with no quote and no
  backslash: \<^verbatim>\<open>handleEvent\<close> decodes the \<open>flag-updated\<close> payload
  \<^verbatim>\<open>{"flagKey":K,"timestamp":T}\<close> and calls \<^verbatim>\<open>onFlagChange\<close> with the event of flag key
  \<open>K\<close> and timestamp \<open>T\<close>, and decodes the \<open>config-updated\<close> payload
  \<^verbatim>\<open>{"timestamp":T'}\<close> and calls it with the event of empty flag key and timestamp \<open>T'\<close>;
  a goroutine in the read loop that reads the three lines of such a frame does just that.
\<close>

theorem well_formed_frames_delivered:
  fixes c :: "'w SseClient"
  assumes "list_all plain K" and "list_all plain T" and "list_all plain T'"
    and "at n (AtRead et ed) c" and "\<not> ctxDone c"
  shows "handleEvent ''flag-updated'' (flag_updated_payload K T) c
           = deliver \<lparr>FlagKey = K, Timestamp = T\<rparr> c \<and>
         handleEvent ''config-updated'' (config_updated_payload T') c
           = deliver \<lparr>FlagKey = [], Timestamp = T'\<rparr> c \<and>
         exec (reads_frame n ''flag-updated'' (flag_updated_payload K T)) c
           = Some (frame_handled n (deliver \<lparr>FlagKey = K, Timestamp = T\<rparr> c)) \<and>
         exec (reads_frame n ''config-updated'' (config_updated_payload T')) c
           = Some (frame_handled n (deliver \<lparr>FlagKey = [], Timestamp = T'\<rparr> c))"
  using handleEvent_flag_updated [OF assms(1) assms(2), of c]
    handleEvent_config_updated [OF assms(3), of c]
    reads_flag_updated_frame [OF assms(1) assms(2) assms(4) assms(5)]
    reads_config_updated_frame [OF assms(3) assms(4) assms(5)]
  by simp

theorem well_formed_frames_delivered_witness:
  "list_all plain ''beta'' \<and> list_all plain ''2024-03-15T10:30:00Z'' \<and>
   list_all plain ''2024-05-20T08:00:00Z'' \<and>
   at 0 (AtRead [] []) listening_client \<and> \<not> ctxDone listening_client \<and>
   map_option world
     (exec (reads_frame 0 ''flag-updated''
              (flag_updated_payload ''beta'' ''2024-03-15T10:30:00Z'')) listening_client)
     = Some [\<lparr>FlagKey = ''beta'', Timestamp = ''2024-03-15T10:30:00Z''\<rparr>] \<and>
   map_option world
     (exec (reads_frame 0 ''config-updated''
              (config_updated_payload ''2024-05-20T08:00:00Z'')) listening_client)
     = Some [\<lparr>FlagKey = [], Timestamp = ''2024-05-20T08:00:00Z''\<rparr>]"
proof -
  note t = well_formed_frames_delivered [OF spec_strings_plain at_ctxDone_listening]
  have w: "world (frame_handled 0 (deliver ev listening_client)) = [ev]" for ev
    by (simp add: frame_handled_def deliver_def in_world_def move_def listening_client_def
                  NewSseClient_def recording_listener_def)
  show ?thesis
    using t spec_strings_plain at_ctxDone_listening by (simp add: w)
qed

text \<open>
  C7. Whatever the payload of an \<open>api-key-rotated\<close> frame, \<^verbatim>\<open>handleEvent\<close> returns
  normally and leaves the client as it was but for one log line (the warning, or the
  diagnostic when the payload does not decode): it calls no callback, so the caller's
  state, which only callbacks touch, is as before. The goroutine that reads the empty line
  after such a frame goes back to the top of the read loop.
\<close>

theorem api_key_rotated_only_logs:
  "handleEvent ''api-key-rotated'' data c
     = Returned ()
         (printf (case Unmarshal ApiKeyRotatedEvent data of
                    Inl err \<Rightarrow> FailedToParse ''api-key-rotated'' err
                  | Inr parsed \<Rightarrow> ApiKeyRotatedWarning (parsed ''validUntil'')) c) \<and>
   world (state_of (handleEvent ''api-key-rotated'' data c)) = world c \<and>
   goroutine_step (AtReadString ''api-key-rotated'' data) (Line [newline]) c
     = Some (if data = [] then (AtRead ''api-key-rotated'' [], c)
             else (AtRead [] [],
                   printf (case Unmarshal ApiKeyRotatedEvent data of
                             Inl err \<Rightarrow> FailedToParse ''api-key-rotated'' err
                           | Inr parsed \<Rightarrow> ApiKeyRotatedWarning (parsed ''validUntil'')) c))"
proof -
  have h: "handleEvent ''api-key-rotated'' data c
     = Returned ()
         (printf (case Unmarshal ApiKeyRotatedEvent data of
                    Inl err \<Rightarrow> FailedToParse ''api-key-rotated'' err
                  | Inr parsed \<Rightarrow> ApiKeyRotatedWarning (parsed ''validUntil'')) c)"
    by (simp add: handleEvent_def split: sum.split)
  have "read_line [newline] ''api-key-rotated'' [] c = Some (AtRead ''api-key-rotated'' [], c)"
    unfolding read_line_def Let_def TrimSpace_blank by (simp add: HasPrefix_def)
  then show ?thesis
    using h read_blank_line [of data "''api-key-rotated''" c]
    by (simp add: proceed_def printf_def)
qed

text \<open>
  C9. A frame of one of the three decoded event types whose payload
  \<^verbatim>\<open>json.Unmarshal\<close> refuses (a syntax error, or a value of the wrong JSON type): 
  \<^verbatim>\<open>handleEvent\<close> returns normally, calls no callback, and leaves the client as it was
  but for the diagnostic in the log; the goroutine that reads the empty line after the
  frame is back at the top of the read loop, and what follows runs from there.
\<close>

theorem malformed_payload_dropped_and_logged:
  assumes "(eventType, names) \<in> set [(''flag-updated'', FlagUpdatedEvent),
             (''config-updated'', ConfigUpdatedEvent), (''api-key-rotated'', ApiKeyRotatedEvent)]"
    and "Unmarshal names data = Inl err"
    and "at n (AtReadString eventType data) c" and "data \<noteq> []"
  shows "handleEvent eventType data c = Returned () (printf (FailedToParse eventType err) c) \<and>
         exec (Run n (Line [newline]) # rest) c
           = exec rest (move n (AtRead [] []) (printf (FailedToParse eventType err) c))"
proof -
  have h: "handleEvent eventType data c = Returned () (printf (FailedToParse eventType err) c)"
    using assms(1) assms(2) by (auto simp: handleEvent_def)
  from dispatch_at_blank_line [OF assms(3) assms(4)] h
  have "step (Run n (Line [newline])) c
      = Some (move n (AtRead [] []) (printf (FailedToParse eventType err) c))"
    by (simp add: frame_handled_def)
  with h show ?thesis by simp
qed

theorem malformed_payload_dropped_and_logged_witness:
  "(''flag-updated'', FlagUpdatedEvent) \<in> set [(''flag-updated'', FlagUpdatedEvent),
      (''config-updated'', ConfigUpdatedEvent), (''api-key-rotated'', ApiKeyRotatedEvent)] \<and>
   Unmarshal FlagUpdatedEvent ''{not valid json}'' = Inl SyntaxError \<and>
   at 0 (AtReadString ''flag-updated'' ''{not valid json}'')
     (move 0 (AtReadString ''flag-updated'' ''{not valid json}'') listening_client) \<and>
   ''{not valid json}'' \<noteq> [] \<and>
   handleEvent ''flag-updated'' ''{not valid json}''
       (move 0 (AtReadString ''flag-updated'' ''{not valid json}'') listening_client)
     = Returned ()
         (printf (FailedToParse ''flag-updated'' SyntaxError)
            (move 0 (AtReadString ''flag-updated'' ''{not valid json}'') listening_client)) \<and>
   map_option (\<lambda>c. (world c, logs c, goroutines c, fault c))
     (exec (Run 0 (Line [newline])
              # reads_frame 0 ''flag-updated''
                  (flag_updated_payload ''beta'' ''2024-03-15T10:30:00Z''))
        (move 0 (AtReadString ''flag-updated'' ''{not valid json}'') listening_client))
     = Some ([\<lparr>FlagKey = ''beta'', Timestamp = ''2024-03-15T10:30:00Z''\<rparr>],
             [FailedToParse ''flag-updated'' SyntaxError], [AtRead [] []], None)"
proof -
  let ?d = "''{not valid json}''"
  let ?c = "move 0 (AtReadString ''flag-updated'' ?d) listening_client"
  let ?c' = "move 0 (AtRead [] []) (printf (FailedToParse ''flag-updated'' SyntaxError) ?c)"
  let ?ev = "\<lparr>FlagKey = ''beta'', Timestamp = ''2024-03-15T10:30:00Z''\<rparr>"
  have m: "(''flag-updated'', FlagUpdatedEvent) \<in> set [(''flag-updated'', FlagUpdatedEvent),
      (''config-updated'', ConfigUpdatedEvent), (''api-key-rotated'', ApiKeyRotatedEvent)]"
    by simp
  have "case Unmarshal FlagUpdatedEvent ?d of Inl e \<Rightarrow> e = SyntaxError | Inr parsed \<Rightarrow> False"
    by code_simp
  then have u: "Unmarshal FlagUpdatedEvent ?d = Inl SyntaxError"
    by (simp split: sum.splits)
  have a: "at 0 (AtReadString ''flag-updated'' ?d) ?c"
    by (simp add: at_def move_def listening_client_def NewSseClient_def)
  have n: "?d \<noteq> []"
    by simp
  note t = malformed_payload_dropped_and_logged
             [OF m u a n, of "reads_frame 0 ''flag-updated''
                                (flag_updated_payload ''beta'' ''2024-03-15T10:30:00Z'')"]
  have a': "at 0 (AtRead [] []) ?c'"
    by (simp add: at_def move_def printf_def listening_client_def NewSseClient_def)
  have d': "\<not> ctxDone ?c'"
    by (simp add: move_def printf_def listening_client_def NewSseClient_def)
  note r = reads_flag_updated_frame [OF spec_strings_plain(1) spec_strings_plain(2) a' d']
  have w: "(\<lambda>c. (world c, logs c, goroutines c, fault c)) (frame_handled 0 (deliver ?ev ?c'))
      = ([?ev], [FailedToParse ''flag-updated'' SyntaxError], [AtRead [] []], None)"
    by (simp add: frame_handled_def deliver_def in_world_def move_def printf_def
                  listening_client_def NewSseClient_def recording_listener_def)
  from t have h: "handleEvent ''flag-updated'' ?d ?c
      = Returned () (printf (FailedToParse ''flag-updated'' SyntaxError) ?c)"
    and e: "exec (Run 0 (Line [newline])
              # reads_frame 0 ''flag-updated''
                  (flag_updated_payload ''beta'' ''2024-03-15T10:30:00Z'')) ?c
        = exec (reads_frame 0 ''flag-updated''
                  (flag_updated_payload ''beta'' ''2024-03-15T10:30:00Z'')) ?c'"
    by blast+
  have x: "map_option (\<lambda>c. (world c, logs c, goroutines c, fault c))
     (exec (Run 0 (Line [newline])
              # reads_frame 0 ''flag-updated''
                  (flag_updated_payload ''beta'' ''2024-03-15T10:30:00Z'')) ?c)
     = Some ([?ev], [FailedToParse ''flag-updated'' SyntaxError], [AtRead [] []], None)"
    unfolding e r using w by simp
  from m u a n h x show ?thesis
    by blast
qed

end
